theory Spec2Isabelle
  imports Complex_Main "HOL-Library.Word"
begin

section \<open>Data model of main.go\<close>

text \<open>
  The Go type \<open>float64\<close> is idealised as \<^typ>\<open>real\<close>: rounding, infinities and NaN
  are not represented. A Go \<open>string\<close> is a \<^typ>\<open>string\<close>, a \<open>[]byte\<close> a list of
  8-bit words, a pointer \<open>*string\<close> an \<^typ>\<open>string option\<close> with \<open>None\<close> for nil.
\<close>

type_synonym float64 = real
type_synonym bytes = "8 word list"

text \<open>\<open>type Utterance struct\<close>: a segment as the provider sends it.\<close>

record Utterance =
  Text :: string
  Speaker :: string
  Start :: float64
  End :: float64

text \<open>
  \<open>type CleanUtterance struct\<close>: the public segment. Its Go fields are \<open>Text\<close>,
  \<open>Start\<close> and \<open>End\<close>; they carry the prefix \<open>Clean\<close> here because the fields of
  two records cannot share a name. The type has no speaker field.
\<close>

record CleanUtterance =
  CleanText :: string
  CleanStart :: float64
  CleanEnd :: float64

text \<open>
  The zero value of \<open>CleanUtterance\<close>, with which \<open>make([]CleanUtterance, n)\<close>
  fills a new slice.
\<close>

definition CleanUtterance_zero :: CleanUtterance where
  "CleanUtterance_zero = \<lparr>CleanText = [], CleanStart = 0, CleanEnd = 0\<rparr>"

section \<open>Normalisation: the loop of \<open>handleWS\<close> over the utterances\<close>

text \<open>
  The composite literal in the body of the loop:
  \<^verbatim>\<open>CleanUtterance{Text: u.Text, Start: u.Start / 1000.0, End: u.End / 1000.0}\<close>
\<close>

definition clean :: "Utterance \<Rightarrow> CleanUtterance" where
  "clean u = \<lparr>CleanText = Text u, CleanStart = Start u / 1000, CleanEnd = End u / 1000\<rparr>"

text \<open>
  \<^verbatim>\<open>for i, u := range utterances { cleaned[i] = CleanUtterance{...} }\<close>
  The loop visits the utterances in order, \<open>i\<close> is the index of \<open>u\<close>, and each round
  overwrites slot \<open>i\<close> of \<open>cleaned\<close>.
\<close>

fun clean_loop :: "nat \<Rightarrow> Utterance list \<Rightarrow> CleanUtterance list \<Rightarrow> CleanUtterance list" where
  "clean_loop i [] cleaned = cleaned"
| "clean_loop i (u # us) cleaned = clean_loop (Suc i) us (cleaned[i := clean u])"

text \<open>
  The normaliser of the specification. In the source it is the tail of \<open>handleWS\<close>:
  \<^verbatim>\<open>cleaned := make([]CleanUtterance, len(utterances))\<close> followed by the loop. Every
  index the loop writes is below \<open>len(utterances)\<close>, the length of \<open>cleaned\<close>, so the
  assignment never leaves the slice (lemma \<open>clean_loop_covers\<close> below).
\<close>

definition normalize_utterances :: "Utterance list \<Rightarrow> CleanUtterance list" where
  "normalize_utterances utterances =
     clean_loop 0 utterances (replicate (length utterances) CleanUtterance_zero)"

section \<open>Errors, panics and the effects of a handler\<close>

text \<open>
  A Go \<open>error\<close> value is represented by the message its \<open>Error()\<close> method returns; a
  result \<open>err\<close> that may be \<open>nil\<close> is a \<^typ>\<open>'a option\<close>.
\<close>

datatype go_error = GoError string

fun error_message :: "go_error \<Rightarrow> string" where
  "error_message (GoError m) = m"

text \<open>How \<open>log.Println\<close> prints an \<open>err\<close> operand.\<close>

fun show_err :: "go_error option \<Rightarrow> string" where
  "show_err None = ''<nil>''"
| "show_err (Some e) = error_message e"

text \<open>
  How a piece of Go code ends: it returns a value, it panics (a run-time error such as
  the dereference of a nil pointer), or it is still executing when the observation ends.
  \<open>Running\<close> is produced only where the unbounded loop of \<open>waitUntilCompleted\<close> has
  been followed for the number of rounds the observer asked for.
\<close>

datatype 'a exec = Return 'a | Panic string | Running

definition nil_dereference :: string where
  "nil_dereference = ''runtime error: invalid memory address or nil pointer dereference''"

text \<open>
  The calls a handler makes on the outside world and on the shared map, in the order it
  makes them. \<open>WriteJSON\<close> carries the value written and the error the call returned.
\<close>

datatype event =
    log_Println "string list"
  | log_Printf string
  | fmt_Println "string list"
  | godotenv_Load
  | router_HandleFunc string
  | http_ListenAndServe string
  | conn_ReadMessage
  | conn_WriteJSON "(string \<times> string) list" "go_error option"
  | conn_Close
  | os_CreateTemp
  | tmpfile_Write bytes
  | tmpfile_Close
  | os_Open string
  | audioFile_Close
  | os_Remove string
  | os_Getenv string
  | TranscribeFromReader string bytes
  | Transcripts_Get string
  | time_Sleep int
  | client_Do string string
  | Body_Close
  | mu_Lock
  | map_store string "CleanUtterance list"
  | map_lookup string
  | mu_Unlock

text \<open>\<open>time.Second\<close>, a \<open>time.Duration\<close> counted in nanoseconds.\<close>

definition time_Second :: int where
  "time_Second = 1000000000"

section \<open>The provider's job record and the poller\<close>

text \<open>
  The fields of \<open>assemblyai.Transcript\<close> that main.go reads. \<open>ID\<close> and \<open>Error\<close> are
  pointers to strings; \<open>Status\<close> is a string type, so a status outside the four known
  ones can be represented.
\<close>

record Transcript =
  ID :: "string option"
  Status :: string
  Error :: "string option"

text \<open>
  The two status constants of the SDK that \<open>waitUntilCompleted\<close> compares with; their
  values are the status names of the specification's Remote Job.
\<close>

definition TranscriptStatusCompleted :: string where
  "TranscriptStatusCompleted = ''completed''"

definition TranscriptStatusError :: string where
  "TranscriptStatusError = ''error''"

text \<open>\<^verbatim>\<open>fmt.Errorf("transcription failed: %s", detail)\<close>\<close>

definition TranscriptionFailed :: "string \<Rightarrow> go_error" where
  "TranscriptionFailed detail = GoError (''transcription failed: '' @ detail)"

text \<open>
  \<open>waitUntilCompleted\<close>. The provider is a parameter: \<open>client transcriptID k\<close> is what
  the \<open>k\<close>-th call of \<open>client.Transcripts.Get\<close> returns, a transcript and an error.
  The source's \<open>for\<close> has no exit condition. The first argument bounds the observation,
  not the program: it is the number of rounds followed, and when they are used up the
  loop is reported as \<open>Running\<close>, with the calls made so far.
\<close>

fun waitUntilCompleted ::
  "nat \<Rightarrow> (string \<Rightarrow> nat \<Rightarrow> Transcript \<times> go_error option) \<Rightarrow> string \<Rightarrow> nat
   \<Rightarrow> event list \<times> (Transcript \<times> go_error option) exec" where
  "waitUntilCompleted 0 client transcriptID k = ([], Running)"
| "waitUntilCompleted (Suc rounds) client transcriptID k =
     (case client transcriptID k of
        (tr, Some err) \<Rightarrow> ([Transcripts_Get transcriptID], Return (tr, Some err))
      | (tr, None) \<Rightarrow>
          (let polled = [Transcripts_Get transcriptID,
                         log_Println [''Transcript polling status:'', Status tr]]
           in if Status tr = TranscriptStatusCompleted then (polled, Return (tr, None))
              else if Status tr = TranscriptStatusError then
                (case Error tr of
                   None \<Rightarrow> (polled, Panic nil_dereference)
                 | Some detail \<Rightarrow> (polled, Return (tr, Some (TranscriptionFailed detail))))
              else (case waitUntilCompleted rounds client transcriptID (Suc k) of
                      (later, r) \<Rightarrow> (polled @ [time_Sleep (3 * time_Second)] @ later, r))))"

section \<open>The session handler\<close>

text \<open>
  What the outside world answers to one session: the value each external call of
  \<open>handleWS\<close> and \<open>getUtterancesFromTranscript\<close> returns.
\<close>

record session_env =
  ret_Upgrade :: "go_error option"
  ret_uuid_New :: string
  ret_ReadMessage :: "int \<times> bytes \<times> go_error option"
  ret_CreateTemp :: "string \<times> go_error option"
  ret_Write :: "go_error option"
  ret_Open :: "go_error option"
  ret_Getenv :: string
  ret_TranscribeFromReader :: "Transcript \<times> go_error option"
  ret_Transcripts_Get :: "string \<Rightarrow> nat \<Rightarrow> Transcript \<times> go_error option"
  ret_NewRequest :: "go_error option"
  ret_Do :: "go_error option"
  ret_ReadAll :: "bytes \<times> go_error option"
  ret_Unmarshal :: "Utterance list \<times> go_error option"
  ret_WriteJSON :: "go_error option"

text \<open>\<open>websocket.BinaryMessage\<close> and \<open>websocket.TextMessage\<close>.\<close>

definition BinaryMessage :: int where
  "BinaryMessage = 2"

definition TextMessage :: int where
  "TextMessage = 1"

text \<open>
  \<open>getUtterancesFromTranscript\<close>: one GET request to the provider, authorised with the
  key; the body is read whole and decoded. The status code of the answer is not looked
  at. \<open>resp.Body.Close\<close> is deferred once the request has been answered.
\<close>

definition getUtterancesFromTranscript ::
  "session_env \<Rightarrow> string \<Rightarrow> string \<Rightarrow> event list \<times> Utterance list \<times> go_error option" where
  "getUtterancesFromTranscript env apiKey transcriptID =
     (let url = ''https://api.assemblyai.com/v2/transcript/'' @ transcriptID in
      case ret_NewRequest env of
        Some err \<Rightarrow> ([], [], Some err)
      | None \<Rightarrow>
     (case ret_Do env of
        Some err \<Rightarrow> ([client_Do url apiKey], [], Some err)
      | None \<Rightarrow>
     (case ret_ReadAll env of
        (bodyBytes, Some err) \<Rightarrow> ([client_Do url apiKey, Body_Close], [], Some err)
      | (bodyBytes, None) \<Rightarrow>
     (case ret_Unmarshal env of
        (utterances, Some err) \<Rightarrow>
          ([client_Do url apiKey,
            log_Printf (''Raw response: '' @ map (\<lambda>b. char_of (unat b)) bodyBytes @ [CHR 0x0A]),
            Body_Close], [], Some err)
      | (utterances, None) \<Rightarrow> ([client_Do url apiKey, Body_Close], utterances, None)))))"

text \<open>
  The global \<open>transcriptions\<close>, a map from connection identifiers to stored records.
\<close>

type_synonym store = "string \<rightharpoonup> CleanUtterance list"

text \<open>
  Which \<open>return\<close> of \<open>handleWS\<close> was taken: one of the early ones, each after a log
  line, or the end of the function body.
\<close>

datatype ending = Aborted | Completed

record session_result =
  transcriptions :: store
  events :: "event list"
  outcome :: "ending exec"

definition finish :: "store \<Rightarrow> ending exec \<Rightarrow> session_result" where
  "finish s x = \<lparr>transcriptions = s, events = [], outcome = x\<rparr>"

text \<open>\<open>calls evs r\<close>: the calls \<open>evs\<close> are made, then the handler goes on as \<open>r\<close>.\<close>

definition calls :: "event list \<Rightarrow> session_result \<Rightarrow> session_result" where
  "calls evs r = r\<lparr>events := evs @ events r\<rparr>"

text \<open>
  \<open>defer\<close>: the call runs when the rest of the function has returned or panicked, and
  not while it is still executing.
\<close>

definition deferred :: "event \<Rightarrow> session_result \<Rightarrow> session_result" where
  "deferred ev r = (if outcome r = Running then r else r\<lparr>events := events r @ [ev]\<rparr>)"

text \<open>
  \<open>handleWS\<close>, statement by statement. The first argument is the number of polling
  rounds followed (see \<open>waitUntilCompleted\<close>); \<open>s\<close> is the content of \<open>transcriptions\<close>
  when the handler takes the lock. The options of the submission are constants and are
  left out of the \<open>TranscribeFromReader\<close> event; the file handed to it holds \<open>data\<close>.
\<close>

definition handleWS :: "nat \<Rightarrow> session_env \<Rightarrow> store \<Rightarrow> session_result" where
  "handleWS rounds env s =
     (case ret_Upgrade env of
        Some err \<Rightarrow>
          calls [log_Println [''WebSocket upgrade failed:'', error_message err]]
            (finish s (Return Aborted))
      | None \<Rightarrow>
     deferred conn_Close
     (let connectionID = ret_uuid_New env in
      calls [log_Println [''New connection:'', connectionID], conn_ReadMessage]
     (case ret_ReadMessage env of (mt, data, err) \<Rightarrow>
      if err \<noteq> None \<or> mt \<noteq> BinaryMessage then
        calls [log_Println [''Failed to read binary audio:'', show_err err]]
          (finish s (Return Aborted))
      else
     calls [os_CreateTemp]
     (case ret_CreateTemp env of
        (tmpfile, Some err) \<Rightarrow>
          calls [log_Println [''Temp file creation failed:'', error_message err]]
            (finish s (Return Aborted))
      | (tmpfile, None) \<Rightarrow>
     deferred (os_Remove tmpfile)
     (calls [tmpfile_Write data]
     (case ret_Write env of
        Some err \<Rightarrow>
          calls [log_Println [''Failed to write to temp file:'', error_message err]]
            (finish s (Return Aborted))
      | None \<Rightarrow>
     calls [tmpfile_Close, os_Open tmpfile]
     (case ret_Open env of
        Some err \<Rightarrow>
          calls [log_Println [''Open audio file failed:'', error_message err]]
            (finish s (Return Aborted))
      | None \<Rightarrow>
     deferred audioFile_Close
     (let apiKey = ret_Getenv env in
      calls [os_Getenv ''ASSEMBLYAI_API_KEY'']
     (if apiKey = [] then
        calls [log_Println [''API key not found in environment'']]
          (finish s (Return Aborted))
      else
     calls [TranscribeFromReader apiKey data]
     (case ret_TranscribeFromReader env of
        (transcript, Some err) \<Rightarrow>
          calls [log_Println [''Transcription failed:'', error_message err]]
            (finish s (Return Aborted))
      | (transcript, None) \<Rightarrow>
     (case ID transcript of
        None \<Rightarrow> finish s (Panic nil_dereference)
      | Some transcriptID \<Rightarrow>
     (case waitUntilCompleted rounds (ret_Transcripts_Get env) transcriptID 0 of
        (polls, Running) \<Rightarrow> calls polls (finish s Running)
      | (polls, Panic p) \<Rightarrow> calls polls (finish s (Panic p))
      | (polls, Return (completedTranscript, Some err)) \<Rightarrow>
          calls (polls @ [log_Println [''Polling failed:'', error_message err]])
            (finish s (Return Aborted))
      | (polls, Return (completedTranscript, None)) \<Rightarrow>
     calls polls
     (case ID completedTranscript of
        None \<Rightarrow> finish s (Panic nil_dereference)
      | Some completedID \<Rightarrow>
     (case getUtterancesFromTranscript env apiKey completedID of
        (fetch, utterances, Some err) \<Rightarrow>
          calls (fetch @ [log_Println [''Failed to get utterances:'', error_message err]])
            (finish s (Return Aborted))
      | (fetch, utterances, None) \<Rightarrow>
     (let cleaned = normalize_utterances utterances in
      calls (fetch @ [mu_Lock, map_store connectionID cleaned, mu_Unlock,
                      conn_WriteJSON [(''connection_id'', connectionID)] (ret_WriteJSON env)])
        (finish (s(connectionID \<mapsto> cleaned)) (Return Completed)))))))))))))))))"

section \<open>The retrieval handler\<close>

text \<open>
  What \<open>encoding/json\<close> produces, as a tree. \<open>CleanUtterance_json\<close> follows the field
  tags of the struct: the keys \<open>text\<close>, \<open>start\<close> and \<open>end\<close>, in the order of the fields.
\<close>

datatype json = JString string | JNumber float64 | JObject "(string \<times> json) list" | JArray "json list"

definition CleanUtterance_json :: "CleanUtterance \<Rightarrow> json" where
  "CleanUtterance_json c =
     JObject [(''text'', JString (CleanText c)), (''start'', JNumber (CleanStart c)),
              (''end'', JNumber (CleanEnd c))]"

text \<open>
  The answer written to an \<open>http.ResponseWriter\<close>: status code, content type, and the
  message given to \<open>http.Error\<close> or the value given to the JSON encoder. The line feed
  that both library calls append to the body is not represented.
\<close>

datatype body = PlainText string | JSON json

record response =
  status :: nat
  content_type :: string
  payload :: body

definition StatusOK :: nat where
  "StatusOK = 200"

definition StatusNotFound :: nat where
  "StatusNotFound = 404"

text \<open>\<open>http.Error(w, msg, code)\<close>\<close>

definition http_Error :: "string \<Rightarrow> nat \<Rightarrow> response" where
  "http_Error msg code =
     \<lparr>status = code, content_type = ''text/plain; charset=utf-8'', payload = PlainText msg\<rparr>"

text \<open>
  The part of \<open>handleGetTranscription\<close> after the lock has been released: \<open>found\<close> is
  the pair \<open>data, ok\<close> of the map lookup, \<open>None\<close> when \<open>ok\<close> is false. A stored record is
  never a nil slice (\<open>handleWS\<close> stores the result of \<open>make\<close>), so it is encoded as an
  array. No status is set on the success path, which leaves the default, 200.
\<close>

definition respond :: "CleanUtterance list option \<Rightarrow> response" where
  "respond found =
     (case found of
        None \<Rightarrow> http_Error ''Transcription not found'' StatusNotFound
      | Some data \<Rightarrow>
          \<lparr>status = StatusOK, content_type = ''application/json'',
           payload = JSON (JArray (map CleanUtterance_json data))\<rparr>)"

text \<open>
  \<open>handleGetTranscription\<close> for the path variable \<open>id\<close> (here \<open>ident\<close>), on the
  store content \<open>s\<close>: the calls on the mutex and the map, and the answer.
\<close>

definition handleGetTranscription :: "string \<Rightarrow> store \<Rightarrow> event list \<times> response" where
  "handleGetTranscription ident s =
     ([mu_Lock, map_lookup ident, mu_Unlock], respond (s ident))"

section \<open>Start of the process\<close>

text \<open>
  The calls of \<open>main\<close>: the local override file is loaded into the environment, the two
  routes are registered, and the server listens on its port until the process ends.
\<close>

definition main_calls :: "event list" where
  "main_calls =
     [godotenv_Load, router_HandleFunc ''/ws'', router_HandleFunc ''/transcription/{id}'',
      fmt_Println [''Server running on'', '':8080''], http_ListenAndServe '':8080'']"

section \<open>Sessions one after another\<close>

text \<open>
  The store after the sessions of a list have been handled one after another, each
  observed for its own number of polling rounds.
\<close>

fun serve :: "(nat \<times> session_env) list \<Rightarrow> store \<Rightarrow> store" where
  "serve [] s = s"
| "serve ((rounds, env) # sessions) s = serve sessions (transcriptions (handleWS rounds env s))"

section \<open>Concurrent tasks over the shared map\<close>

text \<open>
  The server runs one task per connection and per retrieval request. The tasks share
  the map \<open>transcriptions\<close> and the mutex \<open>mu\<close> and nothing else. The state of the
  server is the content of the map, the task that holds the mutex, what the map lookup
  of each task returned, and the calls made so far with the task that made them.
\<close>

record server =
  shared :: store
  holder :: "nat option"
  seen :: "nat \<rightharpoonup> CleanUtterance list option"
  history :: "(nat \<times> event) list"

definition initial :: server where
  "initial = \<lparr>shared = Map.empty, holder = None, seen = Map.empty, history = []\<rparr>"

text \<open>
  What a call of task \<open>t\<close> does to the shared state. \<open>sync.Mutex\<close>: \<open>Lock\<close> goes
  through only while no task holds the mutex, otherwise the caller waits (\<open>None\<close>: the
  call cannot be made now); the handlers unlock only what they have locked. The other
  calls do not touch the shared state.
\<close>

fun effect :: "nat \<Rightarrow> event \<Rightarrow> server \<Rightarrow> server option" where
  "effect t mu_Lock \<sigma> = (if holder \<sigma> = None then Some (\<sigma>\<lparr>holder := Some t\<rparr>) else None)"
| "effect t mu_Unlock \<sigma> = (if holder \<sigma> = Some t then Some (\<sigma>\<lparr>holder := None\<rparr>) else None)"
| "effect t (map_store k v) \<sigma> = Some (\<sigma>\<lparr>shared := (shared \<sigma>)(k \<mapsto> v)\<rparr>)"
| "effect t (map_lookup k) \<sigma> = Some (\<sigma>\<lparr>seen := (seen \<sigma>)(t \<mapsto> shared \<sigma> k)\<rparr>)"
| "effect t e \<sigma> = Some \<sigma>"

definition perform :: "nat \<Rightarrow> event \<Rightarrow> server \<Rightarrow> server option" where
  "perform t e \<sigma> =
     (case effect t e \<sigma> of
        None \<Rightarrow> None
      | Some \<sigma>' \<Rightarrow> Some (\<sigma>'\<lparr>history := history \<sigma>' @ [(t, e)]\<rparr>))"

text \<open>
  An interleaving. \<open>progs ! t\<close> is the list of calls task \<open>t\<close> has still to make; the
  schedule names, step by step, the task that makes its next call. A schedule that
  names a task with no call left, or one whose next call cannot be made, is not a run.
\<close>

fun run :: "nat list \<Rightarrow> event list list \<Rightarrow> server \<Rightarrow> (event list list \<times> server) option" where
  "run [] progs \<sigma> = Some (progs, \<sigma>)"
| "run (t # sched) progs \<sigma> =
     (if t < length progs then
        (case progs ! t of
           [] \<Rightarrow> None
         | e # es \<Rightarrow>
             (case perform t e \<sigma> of
                None \<Rightarrow> None
              | Some \<sigma>' \<Rightarrow> run sched (progs[t := es]) \<sigma>'))
      else None)"

text \<open>
  The two kinds of task and the calls they make. The calls of \<open>handleWS\<close> do not
  depend on the content of the map (lemma \<open>handleWS_events_any_store\<close>), so they are
  taken from a run on the empty map.
\<close>

datatype task = Session nat session_env | Retrieval string

fun program :: "task \<Rightarrow> event list" where
  "program (Session rounds env) = events (handleWS rounds env Map.empty)"
| "program (Retrieval ident) = fst (handleGetTranscription ident Map.empty)"

fun session_id :: "task \<Rightarrow> string option" where
  "session_id (Session rounds env) = Some (ret_uuid_New env)"
| "session_id (Retrieval ident) = None"

text \<open>The answer of retrieval task \<open>t\<close>, once its lookup has been made.\<close>

definition answer :: "server \<Rightarrow> nat \<Rightarrow> response option" where
  "answer \<sigma> t = map_option respond (seen \<sigma> t)"

section \<open>Vocabulary of the properties\<close>

text \<open>A status query that succeeded and found the job in no terminal state.\<close>

definition transient :: "Transcript \<times> go_error option \<Rightarrow> bool" where
  "transient r \<longleftrightarrow> snd r = None \<and> Status (fst r) \<noteq> TranscriptStatusCompleted
                   \<and> Status (fst r) \<noteq> TranscriptStatusError"

text \<open>The calls of one successful status query: the query and the log line.\<close>

definition polled :: "string \<Rightarrow> Transcript \<Rightarrow> event list" where
  "polled transcriptID tr =
     [Transcripts_Get transcriptID, log_Println [''Transcript polling status:'', Status tr]]"

text \<open>
  The calls of \<open>m\<close> rounds that each found the job in no terminal state, from query
  \<open>k\<close> on: query, log line, sleep of 3 seconds (in nanoseconds).
\<close>

definition waiting ::
  "(string \<Rightarrow> nat \<Rightarrow> Transcript \<times> go_error option) \<Rightarrow> string \<Rightarrow> nat \<Rightarrow> nat
   \<Rightarrow> event list" where
  "waiting client transcriptID k m =
     concat (map (\<lambda>i. polled transcriptID (fst (client transcriptID i)) @ [time_Sleep 3000000000])
                 [k..<k + m])"

fun is_response :: "event \<Rightarrow> bool" where
  "is_response (conn_WriteJSON v e) = True"
| "is_response _ = False"

fun is_store :: "event \<Rightarrow> bool" where
  "is_store (map_store k v) = True"
| "is_store _ = False"

fun is_poll :: "event \<Rightarrow> bool" where
  "is_poll (Transcripts_Get transcriptID) = True"
| "is_poll _ = False"

text \<open>The calls on the mutex and on the map.\<close>

fun is_sync :: "event \<Rightarrow> bool" where
  "is_sync mu_Lock = True"
| "is_sync mu_Unlock = True"
| "is_sync (map_store k v) = True"
| "is_sync (map_lookup k) = True"
| "is_sync _ = False"

text \<open>How far a session gets: the audio has been received, buffered, submitted.\<close>

definition receives :: "session_env \<Rightarrow> bytes \<Rightarrow> bool" where
  "receives env data \<longleftrightarrow>
     ret_Upgrade env = None \<and> ret_ReadMessage env = (BinaryMessage, data, None)"

definition buffers :: "session_env \<Rightarrow> bytes \<Rightarrow> string \<Rightarrow> bool" where
  "buffers env data tmpfile \<longleftrightarrow>
     receives env data \<and> ret_CreateTemp env = (tmpfile, None) \<and> ret_Write env = None
     \<and> ret_Open env = None"

definition submits :: "session_env \<Rightarrow> bytes \<Rightarrow> string \<Rightarrow> string \<Rightarrow> bool" where
  "submits env data tmpfile transcriptID \<longleftrightarrow>
     buffers env data tmpfile \<and> ret_Getenv env \<noteq> []
     \<and> snd (ret_TranscribeFromReader env) = None
     \<and> ID (fst (ret_TranscribeFromReader env)) = Some transcriptID"

text \<open>The calls every session makes up to the submission of the audio.\<close>

definition preamble :: "session_env \<Rightarrow> bytes \<Rightarrow> string \<Rightarrow> event list" where
  "preamble env data tmpfile =
     [log_Println [''New connection:'', ret_uuid_New env], conn_ReadMessage, os_CreateTemp,
      tmpfile_Write data, tmpfile_Close, os_Open tmpfile, os_Getenv ''ASSEMBLYAI_API_KEY'']"

text \<open>The deferred calls of a session that has opened its audio file, last first.\<close>

definition closing :: "string \<Rightarrow> event list" where
  "closing tmpfile = [audioFile_Close, os_Remove tmpfile, conn_Close]"

text \<open>No record stored and no response sent: what a session leaves behind on \<open>s\<close>.\<close>

definition silent :: "session_result \<Rightarrow> store \<Rightarrow> bool" where
  "silent r s \<longleftrightarrow>
     transcriptions r = s \<and> filter is_response (events r) = []
     \<and> filter is_store (events r) = []"

text \<open>
  Whether a task is between its \<open>mu.Lock\<close> and its \<open>mu.Unlock\<close>, from the calls it has
  made; \<open>performed \<sigma> t\<close> are the calls task \<open>t\<close> has made in state \<open>\<sigma>\<close>.
\<close>

fun critical_from :: "bool \<Rightarrow> event list \<Rightarrow> bool" where
  "critical_from h [] = h"
| "critical_from h (e # es) =
     critical_from (if e = mu_Lock then True else if e = mu_Unlock then False else h) es"

definition critical :: "event list \<Rightarrow> bool" where
  "critical evs = critical_from False evs"

definition performed :: "server \<Rightarrow> nat \<Rightarrow> event list" where
  "performed \<sigma> t = map snd (filter (\<lambda>x. fst x = t) (history \<sigma>))"

text \<open>
  The lock discipline of a list of calls, \<open>h\<close> telling whether the caller holds the
  mutex: \<open>Lock\<close> only when it does not, \<open>Unlock\<close> and map accesses only while it does,
  and every other call (network, file, log, sleep) only while it does not.
\<close>

fun guarded :: "bool \<Rightarrow> event list \<Rightarrow> bool" where
  "guarded h [] = True"
| "guarded h (mu_Lock # es) = (\<not> h \<and> guarded True es)"
| "guarded h (mu_Unlock # es) = (h \<and> guarded False es)"
| "guarded h (map_store k v # es) = (h \<and> guarded h es)"
| "guarded h (map_lookup k # es) = (h \<and> guarded h es)"
| "guarded h (e # es) = (\<not> h \<and> guarded h es)"

text \<open>No status query comes after a \<open>map_store\<close> call.\<close>

fun no_poll_after_store :: "event list \<Rightarrow> bool" where
  "no_poll_after_store [] = True"
| "no_poll_after_store (e # es) =
     ((if is_store e then filter is_poll es = [] else True) \<and> no_poll_after_store es)"

text \<open>Whether task \<open>t\<close> has made its \<open>map_store\<close> call.\<close>

definition has_stored :: "server \<Rightarrow> nat \<Rightarrow> bool" where
  "has_stored \<sigma> t \<longleftrightarrow> filter is_store (performed \<sigma> t) \<noteq> []"

text \<open>An environment in which everything succeeds, for the examples.\<close>

definition demo_client :: "string \<Rightarrow> nat \<Rightarrow> Transcript \<times> go_error option" where
  "demo_client transcriptID k =
     (\<lparr>ID = Some transcriptID, Status = (if k < 2 then ''processing'' else ''completed''),
       Error = None\<rparr>, None)"

text \<open>A provider whose job fails, with and without a detail, and one that cannot be reached.\<close>

definition failing_client :: "string option \<Rightarrow> string \<Rightarrow> nat \<Rightarrow> Transcript \<times> go_error option" where
  "failing_client detail transcriptID k =
     (\<lparr>ID = Some transcriptID, Status = (if k < 1 then ''queued'' else ''error''),
       Error = (if k < 1 then None else detail)\<rparr>, None)"

definition unreachable_client :: "string \<Rightarrow> nat \<Rightarrow> Transcript \<times> go_error option" where
  "unreachable_client transcriptID k =
     (\<lparr>ID = None, Status = [], Error = None\<rparr>, Some (GoError ''connection refused''))"

definition demo_env :: session_env where
  "demo_env =
     \<lparr>ret_Upgrade = None, ret_uuid_New = ''c1'',
      ret_ReadMessage = (BinaryMessage, [82, 73, 70, 70], None),
      ret_CreateTemp = (''/tmp/1.wav'', None), ret_Write = None, ret_Open = None,
      ret_Getenv = ''key'',
      ret_TranscribeFromReader = (\<lparr>ID = Some ''t1'', Status = ''queued'', Error = None\<rparr>, None),
      ret_Transcripts_Get = demo_client,
      ret_NewRequest = None, ret_Do = None, ret_ReadAll = ([], None),
      ret_Unmarshal = ([\<lparr>Text = ''a'', Speaker = ''A'', Start = 2840, End = 5860\<rparr>,
                        \<lparr>Text = ''b'', Speaker = ''B'', Start = 5860, End = 7840\<rparr>], None),
      ret_WriteJSON = None\<rparr>"

text \<open>A session and two retrievals of its record, for the examples.\<close>

definition demo_tasks :: "task list" where
  "demo_tasks = [Session 3 demo_env, Retrieval ''c1'', Retrieval ''c1'']"

section \<open>Normalisation is an element-wise map\<close>

lemma length_clean_loop: "length (clean_loop i us cleaned) = length cleaned"
  by (induction us arbitrary: i cleaned) simp_all

lemma clean_loop_covers:
  "i + length us \<le> length cleaned \<Longrightarrow>
   clean_loop i us cleaned = take i cleaned @ map clean us @ drop (i + length us) cleaned"
proof (induction us arbitrary: i cleaned)
  case Nil
  then show ?case by simp
next
  case (Cons u us)
  from Cons.prems have i: "i < length cleaned" by simp
  from Cons.prems have "Suc i + length us \<le> length (cleaned[i := clean u])" by simp
  from Cons.IH [OF this]
  have "clean_loop (Suc i) us (cleaned[i := clean u]) =
        take (Suc i) (cleaned[i := clean u]) @ map clean us
          @ drop (Suc i + length us) (cleaned[i := clean u])" .
  moreover have "take (Suc i) (cleaned[i := clean u]) = take i cleaned @ [clean u]"
    using i by (simp add: take_Suc_conv_app_nth)
  moreover have "drop (Suc i + length us) (cleaned[i := clean u]) =
                 drop (Suc i + length us) cleaned"
    by simp
  ultimately show ?case by simp
qed

lemma normalize_utterances_map: "normalize_utterances us = map clean us"
  using clean_loop_covers [of 0 us "replicate (length us) CleanUtterance_zero"]
  by (simp add: normalize_utterances_def)

text \<open>
  C3. Normalisation is a function of the raw segment list alone. It keeps the length and
  the order: the \<open>i\<close>-th public segment is made from the \<open>i\<close>-th raw segment, has its
  text, its start and end divided by 1000, and no speaker. On the list with the one
  segment (a, A, 2840, 5860) it gives the one segment (a, 2.84, 5.86).
\<close>

theorem normalize_utterances_spec:
  "length (normalize_utterances us) = length us
   \<and> normalize_utterances us = map (\<lambda>u. \<lparr>CleanText = Text u, CleanStart = Start u / 1000,
                                CleanEnd = End u / 1000\<rparr>) us
   \<and> normalize_utterances (us @ vs) = normalize_utterances us @ normalize_utterances vs
   \<and> normalize_utterances [\<lparr>Text = ''a'', Speaker = ''A'', Start = 2840, End = 5860\<rparr>]
       = [\<lparr>CleanText = ''a'', CleanStart = 2.84, CleanEnd = 5.86\<rparr>]"
proof -
  have m: "map clean us = map (\<lambda>u. \<lparr>CleanText = Text u, CleanStart = Start u / 1000,
                                CleanEnd = End u / 1000\<rparr>) us"
    by (simp add: clean_def)
  show ?thesis
    unfolding normalize_utterances_map m [symmetric] by (simp add: clean_def)
qed

section \<open>The poller\<close>

lemma waiting_0: "waiting client tid k 0 = []"
  by (simp add: waiting_def)

lemma waiting_Suc:
  "waiting client tid k (Suc m) =
     polled tid (fst (client tid k)) @ [time_Sleep 3000000000] @ waiting client tid (Suc k) m"
proof -
  have "[k..<k + Suc m] = k # [Suc k..<Suc k + m]"
    by (simp add: upt_conv_Cons)
  then show ?thesis by (simp add: waiting_def)
qed

lemma wait_transient:
  "transient (client tid k) \<Longrightarrow>
   waitUntilCompleted (Suc n) client tid k =
     (polled tid (fst (client tid k)) @ [time_Sleep 3000000000]
        @ fst (waitUntilCompleted n client tid (Suc k)),
      snd (waitUntilCompleted n client tid (Suc k)))"
  by (cases "client tid k")
     (auto simp: transient_def polled_def time_Second_def split: prod.splits)

text \<open>Rounds that find the job in no terminal state are passed over, one by one.\<close>

lemma wait_skip:
  "(\<forall>i<m. transient (client tid (k + i))) \<Longrightarrow>
   waitUntilCompleted (m + n) client tid k =
     (waiting client tid k m @ fst (waitUntilCompleted n client tid (k + m)),
      snd (waitUntilCompleted n client tid (k + m)))"
proof (induction m arbitrary: k)
  case 0
  then show ?case by (simp add: waiting_0)
next
  case (Suc m)
  from Suc.prems have t: "transient (client tid k)"
    by (metis add.right_neutral zero_less_Suc)
  from Suc.prems have "\<forall>i<m. transient (client tid (Suc k + i))"
    by (metis Suc_less_eq add_Suc_right add_Suc)
  from Suc.IH [OF this]
  have ih: "waitUntilCompleted (m + n) client tid (Suc k) =
     (waiting client tid (Suc k) m @ fst (waitUntilCompleted n client tid (Suc k + m)),
      snd (waitUntilCompleted n client tid (Suc k + m)))" .
  have "waitUntilCompleted (Suc m + n) client tid k =
     (polled tid (fst (client tid k)) @ [time_Sleep 3000000000]
        @ fst (waitUntilCompleted (m + n) client tid (Suc k)),
      snd (waitUntilCompleted (m + n) client tid (Suc k)))"
    using wait_transient [of client tid k "m + n"] t by simp
  then show ?case
    unfolding ih by (simp add: waiting_Suc)
qed

text \<open>
  C1, as the code has it. Let the queries \<open>k, \<dots>, k + m - 1\<close> succeed and find the job in
  no terminal state (queued, processing, or a status the code does not know). Then the
  poller makes exactly these \<open>m\<close> queries, each followed by a log line and a sleep of 3
  seconds, and is still polling: there is no bound on \<open>m\<close>, so no timeout. What query
  \<open>k + m\<close> answers decides the return: \<open>completed\<close> returns the job; \<open>error\<close> with a
  detail fails with "transcription failed: detail"; and a query that itself fails
  returns that query's error at once, whatever the state of the job.
\<close>

theorem poller_spec:
  assumes "\<forall>i<m. transient (client transcriptID (k + i))"
  shows "waitUntilCompleted m client transcriptID k = (waiting client transcriptID k m, Running)
    \<and> (client transcriptID (k + m) = (tr, None) \<and> Status tr = ''completed'' \<longrightarrow>
         waitUntilCompleted (m + Suc n) client transcriptID k =
           (waiting client transcriptID k m @ polled transcriptID tr, Return (tr, None)))
    \<and> (client transcriptID (k + m) = (tr, None) \<and> Status tr = ''error''
         \<and> Error tr = Some detail \<longrightarrow>
         waitUntilCompleted (m + Suc n) client transcriptID k =
           (waiting client transcriptID k m @ polled transcriptID tr,
            Return (tr, Some (GoError (''transcription failed: '' @ detail)))))
    \<and> (client transcriptID (k + m) = (tr, Some err) \<longrightarrow>
         waitUntilCompleted (m + Suc n) client transcriptID k =
           (waiting client transcriptID k m @ [Transcripts_Get transcriptID],
            Return (tr, Some err)))"
proof -
  have a: "waitUntilCompleted m client transcriptID k = (waiting client transcriptID k m, Running)"
    using wait_skip [of m client transcriptID k 0] assms by simp
  have b: "waitUntilCompleted (m + Suc n) client transcriptID k =
     (waiting client transcriptID k m
        @ fst (waitUntilCompleted (Suc n) client transcriptID (k + m)),
      snd (waitUntilCompleted (Suc n) client transcriptID (k + m)))"
    using wait_skip [of m client transcriptID k "Suc n"] assms by blast
  show ?thesis
    unfolding b using a
    by (simp add: polled_def TranscriptStatusCompleted_def TranscriptStatusError_def
        TranscriptionFailed_def)
qed

theorem poller_spec_witness:
  "waitUntilCompleted 2 demo_client ''t1'' 0 =
     ([Transcripts_Get ''t1'', log_Println [''Transcript polling status:'', ''processing''],
       time_Sleep 3000000000,
       Transcripts_Get ''t1'', log_Println [''Transcript polling status:'', ''processing''],
       time_Sleep 3000000000], Running)
   \<and> waitUntilCompleted 3 demo_client ''t1'' 0 =
     ([Transcripts_Get ''t1'', log_Println [''Transcript polling status:'', ''processing''],
       time_Sleep 3000000000,
       Transcripts_Get ''t1'', log_Println [''Transcript polling status:'', ''processing''],
       time_Sleep 3000000000,
       Transcripts_Get ''t1'', log_Println [''Transcript polling status:'', ''completed'']],
      Return (\<lparr>ID = Some ''t1'', Status = ''completed'', Error = None\<rparr>, None))
   \<and> waitUntilCompleted 2 (failing_client (Some ''bad audio'')) ''t1'' 0 =
     ([Transcripts_Get ''t1'', log_Println [''Transcript polling status:'', ''queued''],
       time_Sleep 3000000000,
       Transcripts_Get ''t1'', log_Println [''Transcript polling status:'', ''error'']],
      Return (\<lparr>ID = Some ''t1'', Status = ''error'', Error = Some ''bad audio''\<rparr>,
              Some (GoError ''transcription failed: bad audio'')))
   \<and> waitUntilCompleted 1 unreachable_client ''t1'' 0 =
     ([Transcripts_Get ''t1''],
      Return (\<lparr>ID = None, Status = [], Error = None\<rparr>, Some (GoError ''connection refused'')))"
proof -
  have h1: "\<forall>i<2. transient (demo_client ''t1'' (0 + i))"
    by (simp add: transient_def demo_client_def TranscriptStatusCompleted_def
        TranscriptStatusError_def)
  have h2: "\<forall>i<1. transient (failing_client (Some ''bad audio'') ''t1'' (0 + i))"
    by (simp add: transient_def failing_client_def TranscriptStatusCompleted_def
        TranscriptStatusError_def)
  have h3: "\<forall>i<0. transient (unreachable_client ''t1'' (0 + i))"
    by simp
  note a = poller_spec [where m = 2 and client = demo_client and transcriptID = "''t1''"
      and k = 0 and n = 0 and tr = "\<lparr>ID = Some ''t1'', Status = ''completed'', Error = None\<rparr>",
      OF h1]
  note b = poller_spec [where m = 1 and client = "failing_client (Some ''bad audio'')"
      and transcriptID = "''t1''" and k = 0 and n = 0 and detail = "''bad audio''"
      and tr = "\<lparr>ID = Some ''t1'', Status = ''error'', Error = Some ''bad audio''\<rparr>", OF h2]
  note c = poller_spec [where m = 0 and client = unreachable_client and transcriptID = "''t1''"
      and k = 0 and n = 0 and err = "GoError ''connection refused''"
      and tr = "\<lparr>ID = None, Status = [], Error = None\<rparr>", OF h3]
  show ?thesis
    using a b c
    by (simp del: waitUntilCompleted.simps
        add: demo_client_def failing_client_def unreachable_client_def waiting_0 waiting_Suc
          polled_def numeral_2_eq_2 numeral_3_eq_3)
qed

text \<open>
  C1 as stated lets the poller return only upon a terminal state. Here the first query
  cannot reach the provider: the poller returns the query's error, with a transcript
  whose status is neither \<open>completed\<close> nor \<open>error\<close>.
\<close>

theorem poller_returns_on_query_failure:
  "waitUntilCompleted 1 unreachable_client ''t1'' 0 =
     ([Transcripts_Get ''t1''],
      Return (\<lparr>ID = None, Status = [], Error = None\<rparr>, Some (GoError ''connection refused'')))
   \<and> Status (fst (unreachable_client ''t1'' 0)) \<noteq> ''completed''
   \<and> Status (fst (unreachable_client ''t1'' 0)) \<noteq> ''error''"
  by (simp add: unreachable_client_def)

section \<open>The session handler\<close>

lemma finish_sel [simp]:
  "transcriptions (finish s x) = s" "events (finish s x) = []" "outcome (finish s x) = x"
  by (simp_all add: finish_def)

lemma calls_sel [simp]:
  "transcriptions (calls evs r) = transcriptions r"
  "events (calls evs r) = evs @ events r"
  "outcome (calls evs r) = outcome r"
  by (simp_all add: calls_def)

lemma deferred_sel [simp]:
  "transcriptions (deferred ev r) = transcriptions r"
  "events (deferred ev r) = events r @ (if outcome r = Running then [] else [ev])"
  "outcome (deferred ev r) = outcome r"
  by (simp_all add: deferred_def)

lemma session_result_eqI:
  "transcriptions r = a \<Longrightarrow> events r = b \<Longrightarrow> outcome r = c \<Longrightarrow>
   r = \<lparr>transcriptions = a, events = b, outcome = c\<rparr>"
  by (cases r) simp

lemma poll_quiet_aux:
  "waitUntilCompleted n client tid k = (evs, r) \<Longrightarrow>
   filter is_response evs = [] \<and> filter is_store evs = [] \<and> filter is_sync evs = []"
proof (induction n arbitrary: k evs r)
  case 0
  then show ?case by simp
next
  case (Suc n)
  obtain tr err where c: "client tid k = (tr, err)" by (cases "client tid k")
  obtain later x where w: "waitUntilCompleted n client tid (Suc k) = (later, x)"
    by (cases "waitUntilCompleted n client tid (Suc k)")
  from Suc.IH [OF w]
  have "filter is_response later = [] \<and> filter is_store later = [] \<and> filter is_sync later = []" .
  with Suc.prems c w show ?case
    by (auto simp: Let_def split: option.splits if_splits)
qed

lemma poll_quiet [simp]:
  "filter is_response (fst (waitUntilCompleted n client tid k)) = []"
  "filter is_store (fst (waitUntilCompleted n client tid k)) = []"
  "filter is_sync (fst (waitUntilCompleted n client tid k)) = []"
  using poll_quiet_aux [of n client tid k]
  by (cases "waitUntilCompleted n client tid k"; simp)+

lemma fetch_quiet [simp]:
  "filter is_response (fst (getUtterancesFromTranscript env a t)) = []"
  "filter is_store (fst (getUtterancesFromTranscript env a t)) = []"
  "filter is_sync (fst (getUtterancesFromTranscript env a t)) = []"
  "filter is_poll (fst (getUtterancesFromTranscript env a t)) = []"
  by (simp_all add: getUtterancesFromTranscript_def Let_def split: option.splits prod.splits)

lemma fetch_ok:
  "snd (snd (getUtterancesFromTranscript env a t)) = None \<Longrightarrow>
   fst (snd (getUtterancesFromTranscript env a t)) = fst (ret_Unmarshal env)"
  by (simp add: getUtterancesFromTranscript_def Let_def split: option.splits prod.splits)

lemma handleWS_transcriptions:
  "transcriptions (handleWS rounds env s) =
     (if outcome (handleWS rounds env s) = Return Completed
      then s(ret_uuid_New env \<mapsto> normalize_utterances (fst (ret_Unmarshal env))) else s)"
  by (simp add: handleWS_def Let_def split_beta fetch_ok split: option.split exec.split)

lemma handleWS_responses:
  "filter is_response (events (handleWS rounds env s)) =
     (if outcome (handleWS rounds env s) = Return Completed
      then [conn_WriteJSON [(''connection_id'', ret_uuid_New env)] (ret_WriteJSON env)] else [])"
  by (simp add: handleWS_def Let_def split_beta split: option.split exec.split)

lemma handleWS_stores:
  "filter is_store (events (handleWS rounds env s)) =
     (if outcome (handleWS rounds env s) = Return Completed
      then [map_store (ret_uuid_New env) (normalize_utterances (fst (ret_Unmarshal env)))]
      else [])"
  by (simp add: handleWS_def Let_def split_beta fetch_ok split: option.split exec.split)

lemma handleWS_sync:
  "filter is_sync (events (handleWS rounds env s)) =
     (if outcome (handleWS rounds env s) = Return Completed
      then [mu_Lock, map_store (ret_uuid_New env) (normalize_utterances (fst (ret_Unmarshal env))),
            mu_Unlock]
      else [])"
  by (simp add: handleWS_def Let_def split_beta fetch_ok split: option.split exec.split)

lemma handleWS_events_any_store:
  "events (handleWS rounds env s) = events (handleWS rounds env s')"
  "outcome (handleWS rounds env s) = outcome (handleWS rounds env s')"
  by (simp_all add: handleWS_def Let_def split_beta split: option.split exec.split)

lemma handleWS_silent:
  "outcome (handleWS rounds env s) \<noteq> Return Completed \<Longrightarrow> silent (handleWS rounds env s) s"
  by (simp add: silent_def handleWS_transcriptions handleWS_responses handleWS_stores)

lemma handleWS_no_frame:
  "ret_Upgrade env = None \<Longrightarrow> ret_ReadMessage env = (mt, data, err) \<Longrightarrow>
   err \<noteq> None \<or> mt \<noteq> BinaryMessage \<Longrightarrow>
   handleWS rounds env s =
     \<lparr>transcriptions = s,
      events = [log_Println [''New connection:'', ret_uuid_New env], conn_ReadMessage,
                log_Println [''Failed to read binary audio:'', show_err err], conn_Close],
      outcome = Return Aborted\<rparr>"
  by (rule session_result_eqI) (simp_all add: handleWS_def Let_def)

lemma handleWS_no_buffer:
  "receives env data \<Longrightarrow>
   snd (ret_CreateTemp env) \<noteq> None \<or> ret_Write env \<noteq> None \<or> ret_Open env \<noteq> None \<Longrightarrow>
   outcome (handleWS rounds env s) = Return Aborted"
  by (cases "ret_CreateTemp env"; cases "ret_Write env"; cases "ret_Open env")
     (auto simp: handleWS_def Let_def receives_def split: option.split)

lemma handleWS_no_key:
  "buffers env data tmpfile \<Longrightarrow> ret_Getenv env = [] \<Longrightarrow>
   handleWS rounds env s =
     \<lparr>transcriptions = s,
      events = preamble env data tmpfile
               @ [log_Println [''API key not found in environment'']] @ closing tmpfile,
      outcome = Return Aborted\<rparr>"
  by (rule session_result_eqI)
     (simp_all add: handleWS_def Let_def buffers_def receives_def preamble_def closing_def)

lemma handleWS_no_key_any:
  "ret_Getenv env = [] \<Longrightarrow> outcome (handleWS rounds env s) = Return Aborted"
  by (simp add: handleWS_def Let_def split_beta split: option.split)

lemma handleWS_not_submitted:
  "buffers env data tmpfile \<Longrightarrow> ret_Getenv env \<noteq> [] \<Longrightarrow>
   snd (ret_TranscribeFromReader env) \<noteq> None \<Longrightarrow>
   outcome (handleWS rounds env s) = Return Aborted"
  by (cases "ret_TranscribeFromReader env")
     (auto simp: handleWS_def Let_def buffers_def receives_def)

text \<open>After the submission: what the poller and the fetch decide.\<close>

lemma submits_transcript:
  "submits env data tmpfile tid \<Longrightarrow>
   \<exists>transcript. ret_TranscribeFromReader env = (transcript, None) \<and> ID transcript = Some tid"
  by (cases "ret_TranscribeFromReader env") (auto simp: submits_def)

lemmas session_unfold =
  handleWS_def Let_def submits_def buffers_def receives_def preamble_def closing_def

lemma handleWS_running:
  assumes "submits env data tmpfile tid"
    and "waitUntilCompleted rounds (ret_Transcripts_Get env) tid 0 = (polls, Running)"
  shows "handleWS rounds env s =
     \<lparr>transcriptions = s,
      events = preamble env data tmpfile @ [TranscribeFromReader (ret_Getenv env) data] @ polls,
      outcome = Running\<rparr>"
  using assms submits_transcript [OF assms(1)]
  by (intro session_result_eqI) (auto simp: session_unfold)

lemma handleWS_poll_panic:
  assumes "submits env data tmpfile tid"
    and "waitUntilCompleted rounds (ret_Transcripts_Get env) tid 0 = (polls, Panic p)"
  shows "handleWS rounds env s =
     \<lparr>transcriptions = s,
      events = preamble env data tmpfile @ [TranscribeFromReader (ret_Getenv env) data] @ polls
               @ closing tmpfile,
      outcome = Panic p\<rparr>"
  using assms submits_transcript [OF assms(1)]
  by (intro session_result_eqI) (auto simp: session_unfold)

lemma handleWS_poll_failed:
  assumes "submits env data tmpfile tid"
    and "waitUntilCompleted rounds (ret_Transcripts_Get env) tid 0 = (polls, Return (tr, Some err))"
  shows "handleWS rounds env s =
     \<lparr>transcriptions = s,
      events = preamble env data tmpfile @ [TranscribeFromReader (ret_Getenv env) data] @ polls
               @ [log_Println [''Polling failed:'', error_message err]] @ closing tmpfile,
      outcome = Return Aborted\<rparr>"
  using assms submits_transcript [OF assms(1)]
  by (intro session_result_eqI) (auto simp: session_unfold)

lemma handleWS_nil_id:
  assumes "submits env data tmpfile tid"
    and "waitUntilCompleted rounds (ret_Transcripts_Get env) tid 0 = (polls, Return (tr, None))"
    and "ID tr = None"
  shows "handleWS rounds env s =
     \<lparr>transcriptions = s,
      events = preamble env data tmpfile @ [TranscribeFromReader (ret_Getenv env) data] @ polls
               @ closing tmpfile,
      outcome = Panic nil_dereference\<rparr>"
  using assms submits_transcript [OF assms(1)]
  by (intro session_result_eqI) (auto simp: session_unfold)

lemma handleWS_fetch_failed:
  assumes "submits env data tmpfile tid"
    and "waitUntilCompleted rounds (ret_Transcripts_Get env) tid 0 = (polls, Return (tr, None))"
    and "ID tr = Some cid"
    and "getUtterancesFromTranscript env (ret_Getenv env) cid = (fetch, utterances, Some err)"
  shows "handleWS rounds env s =
     \<lparr>transcriptions = s,
      events = preamble env data tmpfile @ [TranscribeFromReader (ret_Getenv env) data] @ polls
               @ fetch @ [log_Println [''Failed to get utterances:'', error_message err]]
               @ closing tmpfile,
      outcome = Return Aborted\<rparr>"
  using assms submits_transcript [OF assms(1)]
  by (intro session_result_eqI) (auto simp: session_unfold)

lemma handleWS_completed:
  assumes "submits env data tmpfile tid"
    and "waitUntilCompleted rounds (ret_Transcripts_Get env) tid 0 = (polls, Return (tr, None))"
    and "ID tr = Some cid"
    and "getUtterancesFromTranscript env (ret_Getenv env) cid = (fetch, utterances, None)"
  shows "handleWS rounds env s =
     \<lparr>transcriptions = s(ret_uuid_New env \<mapsto> normalize_utterances utterances),
      events = preamble env data tmpfile @ [TranscribeFromReader (ret_Getenv env) data] @ polls
               @ fetch
               @ [mu_Lock, map_store (ret_uuid_New env) (normalize_utterances utterances),
                  mu_Unlock,
                  conn_WriteJSON [(''connection_id'', ret_uuid_New env)] (ret_WriteJSON env)]
               @ closing tmpfile,
      outcome = Return Completed\<rparr>"
  using assms submits_transcript [OF assms(1)]
  by (intro session_result_eqI) (auto simp: session_unfold)

text \<open>
  C4. A session that takes one of the early returns of \<open>handleWS\<close> leaves the store as
  it found it, makes no \<open>map_store\<close> call and writes nothing to the connection; the
  handler returns, it does not panic, and the sessions handled after it find the store
  as if it had never run. The early returns are taken when the first frame is not
  binary or cannot be read, when the temporary file cannot be created, written or
  reopened, when the submission fails, when the poller returns an error, and when the
  segments cannot be fetched.
\<close>

theorem abort_paths:
  assumes "r = handleWS rounds env s"
  shows "(outcome r = Return Aborted \<longrightarrow>
            silent r s \<and> serve ((rounds, env) # sessions) s = serve sessions s)
    \<and> (ret_Upgrade env = None \<and> ret_ReadMessage env = (mt, data, err)
         \<and> (err \<noteq> None \<or> mt \<noteq> BinaryMessage) \<longrightarrow> outcome r = Return Aborted)
    \<and> (receives env data
         \<and> (snd (ret_CreateTemp env) \<noteq> None \<or> ret_Write env \<noteq> None \<or> ret_Open env \<noteq> None)
         \<longrightarrow> outcome r = Return Aborted)
    \<and> (buffers env data tmpfile \<and> ret_Getenv env \<noteq> []
         \<and> snd (ret_TranscribeFromReader env) \<noteq> None \<longrightarrow> outcome r = Return Aborted)
    \<and> (submits env data tmpfile transcriptID
         \<and> waitUntilCompleted rounds (ret_Transcripts_Get env) transcriptID 0
             = (polls, Return (tr, Some e))
         \<longrightarrow> outcome r = Return Aborted)
    \<and> (submits env data tmpfile transcriptID
         \<and> waitUntilCompleted rounds (ret_Transcripts_Get env) transcriptID 0
             = (polls, Return (tr, None))
         \<and> ID tr = Some completedID
         \<and> getUtterancesFromTranscript env (ret_Getenv env) completedID
             = (fetch, utterances, Some e)
         \<longrightarrow> outcome r = Return Aborted)"
proof -
  have 1: "outcome r = Return Aborted \<longrightarrow>
            silent r s \<and> serve ((rounds, env) # sessions) s = serve sessions s"
    unfolding assms using handleWS_silent [of rounds env s]
    by (simp add: silent_def)
  have 2: "ret_Upgrade env = None \<and> ret_ReadMessage env = (mt, data, err)
         \<and> (err \<noteq> None \<or> mt \<noteq> BinaryMessage) \<longrightarrow> outcome r = Return Aborted"
    unfolding assms using handleWS_no_frame [of env mt data err rounds s] by auto
  have 3: "receives env data
         \<and> (snd (ret_CreateTemp env) \<noteq> None \<or> ret_Write env \<noteq> None \<or> ret_Open env \<noteq> None)
         \<longrightarrow> outcome r = Return Aborted"
    unfolding assms using handleWS_no_buffer [of env data rounds s] by blast
  have 4: "buffers env data tmpfile \<and> ret_Getenv env \<noteq> []
         \<and> snd (ret_TranscribeFromReader env) \<noteq> None \<longrightarrow> outcome r = Return Aborted"
    unfolding assms using handleWS_not_submitted [of env data tmpfile rounds s] by blast
  have 5: "submits env data tmpfile transcriptID
         \<and> waitUntilCompleted rounds (ret_Transcripts_Get env) transcriptID 0
             = (polls, Return (tr, Some e))
         \<longrightarrow> outcome r = Return Aborted"
    unfolding assms
    using handleWS_poll_failed [of env data tmpfile transcriptID rounds polls tr e s] by simp
  have 6: "submits env data tmpfile transcriptID
         \<and> waitUntilCompleted rounds (ret_Transcripts_Get env) transcriptID 0
             = (polls, Return (tr, None))
         \<and> ID tr = Some completedID
         \<and> getUtterancesFromTranscript env (ret_Getenv env) completedID
             = (fetch, utterances, Some e)
         \<longrightarrow> outcome r = Return Aborted"
    unfolding assms
    using handleWS_fetch_failed
      [of env data tmpfile transcriptID rounds polls tr completedID fetch utterances e s]
    by simp
  from 1 2 3 4 5 6 show ?thesis by blast
qed

lemmas demo_unfold =
  demo_env_def demo_client_def failing_client_def unreachable_client_def
  receives_def buffers_def submits_def BinaryMessage_def TextMessage_def
  TranscriptStatusCompleted_def TranscriptStatusError_def TranscriptionFailed_def
  getUtterancesFromTranscript_def polled_def time_Second_def

theorem abort_paths_witness:
  "(let r = handleWS 3 (demo_env\<lparr>ret_ReadMessage := (TextMessage, [104, 105], None)\<rparr>) Map.empty
    in outcome r = Return Aborted \<and> silent r Map.empty)
   \<and> (let r = handleWS 3 (demo_env\<lparr>ret_ReadMessage := (BinaryMessage, [], Some (GoError ''EOF''))\<rparr>)
               Map.empty
      in outcome r = Return Aborted \<and> silent r Map.empty)
   \<and> (let r = handleWS 3 (demo_env\<lparr>ret_Write := Some (GoError ''disk full'')\<rparr>) Map.empty
      in outcome r = Return Aborted \<and> silent r Map.empty)
   \<and> (let r = handleWS 3 (demo_env\<lparr>ret_TranscribeFromReader :=
                 (\<lparr>ID = None, Status = [], Error = None\<rparr>, Some (GoError ''401''))\<rparr>) Map.empty
      in outcome r = Return Aborted \<and> silent r Map.empty)
   \<and> (let r = handleWS 3 (demo_env\<lparr>ret_Transcripts_Get := failing_client (Some ''bad audio'')\<rparr>)
               Map.empty
      in outcome r = Return Aborted \<and> silent r Map.empty)
   \<and> (let r = handleWS 3 (demo_env\<lparr>ret_Do := Some (GoError ''timeout'')\<rparr>) Map.empty
      in outcome r = Return Aborted \<and> silent r Map.empty)"
proof -
  define e1 where "e1 = demo_env\<lparr>ret_ReadMessage := (TextMessage, [104, 105], None)\<rparr>"
  define e2 where "e2 = demo_env\<lparr>ret_ReadMessage := (BinaryMessage, [], Some (GoError ''EOF''))\<rparr>"
  define e3 where "e3 = demo_env\<lparr>ret_Write := Some (GoError ''disk full'')\<rparr>"
  define e4 where "e4 = demo_env\<lparr>ret_TranscribeFromReader :=
                 (\<lparr>ID = None, Status = [], Error = None\<rparr>, Some (GoError ''401''))\<rparr>"
  define e5 where "e5 = demo_env\<lparr>ret_Transcripts_Get := failing_client (Some ''bad audio'')\<rparr>"
  define e6 where "e6 = demo_env\<lparr>ret_Do := Some (GoError ''timeout'')\<rparr>"
  have a1: "outcome (handleWS 3 e1 Map.empty) = Return Aborted"
    using abort_paths [where env = e1 and rounds = 3 and s = Map.empty and mt = TextMessage
        and data = "[104, 105]" and err = None, OF refl]
    by (simp add: e1_def demo_unfold)
  have a2: "outcome (handleWS 3 e2 Map.empty) = Return Aborted"
    using abort_paths [where env = e2 and rounds = 3 and s = Map.empty and mt = BinaryMessage
        and data = "[]" and err = "Some (GoError ''EOF'')", OF refl]
    by (simp add: e2_def demo_unfold)
  have a3: "outcome (handleWS 3 e3 Map.empty) = Return Aborted"
    using abort_paths [where env = e3 and rounds = 3 and s = Map.empty
        and data = "[82, 73, 70, 70]", OF refl]
    by (simp add: e3_def demo_unfold)
  have a4: "outcome (handleWS 3 e4 Map.empty) = Return Aborted"
    using abort_paths [where env = e4 and rounds = 3 and s = Map.empty
        and data = "[82, 73, 70, 70]" and tmpfile = "''/tmp/1.wav''", OF refl]
    by (simp add: e4_def demo_unfold)
  have a5: "outcome (handleWS 3 e5 Map.empty) = Return Aborted"
    using abort_paths [where env = e5 and rounds = 3 and s = Map.empty
        and data = "[82, 73, 70, 70]" and tmpfile = "''/tmp/1.wav''" and transcriptID = "''t1''"
        and polls = "fst (waitUntilCompleted 3 (failing_client (Some ''bad audio'')) ''t1'' 0)"
        and tr = "\<lparr>ID = Some ''t1'', Status = ''error'', Error = Some ''bad audio''\<rparr>"
        and e = "GoError ''transcription failed: bad audio''", OF refl]
    by (simp add: e5_def demo_unfold numeral_3_eq_3)
  have a6: "outcome (handleWS 3 e6 Map.empty) = Return Aborted"
    using abort_paths [where env = e6 and rounds = 3 and s = Map.empty
        and data = "[82, 73, 70, 70]" and tmpfile = "''/tmp/1.wav''" and transcriptID = "''t1''"
        and polls = "fst (waitUntilCompleted 3 demo_client ''t1'' 0)"
        and tr = "\<lparr>ID = Some ''t1'', Status = ''completed'', Error = None\<rparr>"
        and completedID = "''t1''" and e = "GoError ''timeout''"
        and fetch = "[client_Do ''https://api.assemblyai.com/v2/transcript/t1'' ''key'']"
        and utterances = "[]", OF refl]
    by (simp add: e6_def demo_unfold numeral_3_eq_3)
  note s = abort_paths [where rounds = 3 and s = Map.empty and sessions = "[]", OF refl,
      THEN conjunct1, rule_format, THEN conjunct1]
  show ?thesis
    unfolding Let_def e1_def [symmetric] e2_def [symmetric] e3_def [symmetric]
      e4_def [symmetric] e5_def [symmetric] e6_def [symmetric]
    using a1 a2 a3 a4 a5 a6 s [OF a1] s [OF a2] s [OF a3] s [OF a4] s [OF a5] s [OF a6]
    by simp
qed

text \<open>
  C8. When a status query reports \<open>error\<close>, the poller dereferences the error detail
  to build its message. With a detail it returns the error "transcription failed:
  detail"; with none (a nil pointer) the dereference panics. A session whose poller
  panics does not take the "Polling failed" return: it ends by the panic, after its
  deferred calls, with the store untouched.
\<close>

theorem error_without_detail:
  "(client transcriptID k = (tr, None) \<and> Status tr = ''error'' \<longrightarrow>
      waitUntilCompleted (Suc n) client transcriptID k =
        (polled transcriptID tr,
         case Error tr of
           None \<Rightarrow> Panic nil_dereference
         | Some detail \<Rightarrow> Return (tr, Some (TranscriptionFailed detail))))
   \<and> (submits env data tmpfile transcriptID
        \<and> waitUntilCompleted rounds (ret_Transcripts_Get env) transcriptID 0 = (polls, Panic p)
        \<longrightarrow> handleWS rounds env s =
              \<lparr>transcriptions = s,
               events = preamble env data tmpfile
                        @ [TranscribeFromReader (ret_Getenv env) data] @ polls
                        @ closing tmpfile,
               outcome = Panic p\<rparr>)"
proof -
  have "client transcriptID k = (tr, None) \<and> Status tr = ''error'' \<longrightarrow>
      waitUntilCompleted (Suc n) client transcriptID k =
        (polled transcriptID tr,
         case Error tr of
           None \<Rightarrow> Panic nil_dereference
         | Some detail \<Rightarrow> Return (tr, Some (TranscriptionFailed detail)))"
    by (simp add: polled_def TranscriptStatusCompleted_def TranscriptStatusError_def
        split: option.split)
  moreover have "submits env data tmpfile transcriptID
        \<and> waitUntilCompleted rounds (ret_Transcripts_Get env) transcriptID 0 = (polls, Panic p)
        \<longrightarrow> handleWS rounds env s =
              \<lparr>transcriptions = s,
               events = preamble env data tmpfile
                        @ [TranscribeFromReader (ret_Getenv env) data] @ polls
                        @ closing tmpfile,
               outcome = Panic p\<rparr>"
    using handleWS_poll_panic [of env data tmpfile transcriptID rounds polls p s] by blast
  ultimately show ?thesis by blast
qed

theorem error_without_detail_witness:
  "waitUntilCompleted 2 (failing_client None) ''t1'' 1 =
     ([Transcripts_Get ''t1'', log_Println [''Transcript polling status:'', ''error'']],
      Panic nil_dereference)
   \<and> waitUntilCompleted 2 (failing_client (Some ''bad audio'')) ''t1'' 1 =
     ([Transcripts_Get ''t1'', log_Println [''Transcript polling status:'', ''error'']],
      Return (\<lparr>ID = Some ''t1'', Status = ''error'', Error = Some ''bad audio''\<rparr>,
              Some (GoError ''transcription failed: bad audio'')))
   \<and> handleWS 2 (demo_env\<lparr>ret_Transcripts_Get := failing_client None\<rparr>) Map.empty =
     \<lparr>transcriptions = Map.empty,
      events = [log_Println [''New connection:'', ''c1''], conn_ReadMessage, os_CreateTemp,
                tmpfile_Write [82, 73, 70, 70], tmpfile_Close, os_Open ''/tmp/1.wav'',
                os_Getenv ''ASSEMBLYAI_API_KEY'', TranscribeFromReader ''key'' [82, 73, 70, 70],
                Transcripts_Get ''t1'', log_Println [''Transcript polling status:'', ''queued''],
                time_Sleep 3000000000,
                Transcripts_Get ''t1'', log_Println [''Transcript polling status:'', ''error''],
                audioFile_Close, os_Remove ''/tmp/1.wav'', conn_Close],
      outcome = Panic nil_dereference\<rparr>"
proof -
  define env where "env = demo_env\<lparr>ret_Transcripts_Get := failing_client None\<rparr>"
  define polls where "polls =
    [Transcripts_Get ''t1'', log_Println [''Transcript polling status:'', ''queued''],
     time_Sleep 3000000000,
     Transcripts_Get ''t1'', log_Println [''Transcript polling status:'', ''error'']]"
  have a: "waitUntilCompleted 2 (failing_client None) ''t1'' 1 =
     ([Transcripts_Get ''t1'', log_Println [''Transcript polling status:'', ''error'']],
      Panic nil_dereference)"
    using error_without_detail [where client = "failing_client None" and transcriptID = "''t1''"
        and k = 1 and n = 1 and tr = "\<lparr>ID = Some ''t1'', Status = ''error'', Error = None\<rparr>",
        THEN conjunct1]
    by (simp del: waitUntilCompleted.simps add: failing_client_def polled_def numeral_2_eq_2)
  have b: "waitUntilCompleted 2 (failing_client (Some ''bad audio'')) ''t1'' 1 =
     ([Transcripts_Get ''t1'', log_Println [''Transcript polling status:'', ''error'']],
      Return (\<lparr>ID = Some ''t1'', Status = ''error'', Error = Some ''bad audio''\<rparr>,
              Some (GoError ''transcription failed: bad audio'')))"
    using error_without_detail [where client = "failing_client (Some ''bad audio'')"
        and transcriptID = "''t1''" and k = 1 and n = 1
        and tr = "\<lparr>ID = Some ''t1'', Status = ''error'', Error = Some ''bad audio''\<rparr>",
        THEN conjunct1]
    by (simp del: waitUntilCompleted.simps
        add: failing_client_def polled_def numeral_2_eq_2 TranscriptionFailed_def)
  have h1: "submits env [82, 73, 70, 70] ''/tmp/1.wav'' ''t1''"
    by (simp add: env_def demo_unfold)
  have h2: "waitUntilCompleted 2 (ret_Transcripts_Get env) ''t1'' 0 = (polls, Panic nil_dereference)"
    by (simp add: env_def polls_def demo_unfold numeral_2_eq_2)
  have c: "handleWS 2 env Map.empty =
     \<lparr>transcriptions = Map.empty,
      events = preamble env [82, 73, 70, 70] ''/tmp/1.wav''
               @ [TranscribeFromReader (ret_Getenv env) [82, 73, 70, 70]] @ polls
               @ closing ''/tmp/1.wav'',
      outcome = Panic nil_dereference\<rparr>"
    using error_without_detail [where env = env and data = "[82, 73, 70, 70]"
        and tmpfile = "''/tmp/1.wav''" and transcriptID = "''t1''" and rounds = 2
        and polls = polls and p = nil_dereference and s = Map.empty, THEN conjunct2] h1 h2
    by blast
  show ?thesis
    unfolding env_def [symmetric] a b c
    by (simp add: preamble_def closing_def polls_def env_def demo_env_def)
qed

text \<open>
  C9. On the path where everything succeeds the handler locks, stores the record, unlocks
  and only then writes the identifier to the connection. The error that write returns
  is not looked at: whatever it is, the record is in the store and the handler returns
  at the end of its body.
\<close>

theorem stored_before_response:
  assumes "submits env data tmpfile transcriptID"
    and "waitUntilCompleted rounds (ret_Transcripts_Get env) transcriptID 0
           = (polls, Return (tr, None))"
    and "ID tr = Some completedID"
    and "getUtterancesFromTranscript env (ret_Getenv env) completedID
           = (fetch, utterances, None)"
  shows "handleWS rounds env s =
     \<lparr>transcriptions = s(ret_uuid_New env \<mapsto> normalize_utterances utterances),
      events = preamble env data tmpfile @ [TranscribeFromReader (ret_Getenv env) data] @ polls
               @ fetch
               @ [mu_Lock, map_store (ret_uuid_New env) (normalize_utterances utterances),
                  mu_Unlock,
                  conn_WriteJSON [(''connection_id'', ret_uuid_New env)] (ret_WriteJSON env),
                  audioFile_Close, os_Remove tmpfile, conn_Close],
      outcome = Return Completed\<rparr>"
  using handleWS_completed [OF assms, of s] by (simp add: closing_def)

theorem stored_before_response_witness:
  "handleWS 3 (demo_env\<lparr>ret_WriteJSON := Some (GoError ''broken pipe'')\<rparr>) Map.empty =
     \<lparr>transcriptions =
        [''c1'' \<mapsto> [\<lparr>CleanText = ''a'', CleanStart = 2.84, CleanEnd = 5.86\<rparr>,
                    \<lparr>CleanText = ''b'', CleanStart = 5.86, CleanEnd = 7.84\<rparr>]],
      events = [log_Println [''New connection:'', ''c1''], conn_ReadMessage, os_CreateTemp,
                tmpfile_Write [82, 73, 70, 70], tmpfile_Close, os_Open ''/tmp/1.wav'',
                os_Getenv ''ASSEMBLYAI_API_KEY'', TranscribeFromReader ''key'' [82, 73, 70, 70],
                Transcripts_Get ''t1'', log_Println [''Transcript polling status:'', ''processing''],
                time_Sleep 3000000000,
                Transcripts_Get ''t1'', log_Println [''Transcript polling status:'', ''processing''],
                time_Sleep 3000000000,
                Transcripts_Get ''t1'', log_Println [''Transcript polling status:'', ''completed''],
                client_Do ''https://api.assemblyai.com/v2/transcript/t1'' ''key'', Body_Close,
                mu_Lock,
                map_store ''c1'' [\<lparr>CleanText = ''a'', CleanStart = 2.84, CleanEnd = 5.86\<rparr>,
                                  \<lparr>CleanText = ''b'', CleanStart = 5.86, CleanEnd = 7.84\<rparr>],
                mu_Unlock,
                conn_WriteJSON [(''connection_id'', ''c1'')] (Some (GoError ''broken pipe'')),
                audioFile_Close, os_Remove ''/tmp/1.wav'', conn_Close],
      outcome = Return Completed\<rparr>"
proof -
  define env where "env = demo_env\<lparr>ret_WriteJSON := Some (GoError ''broken pipe'')\<rparr>"
  define polls where "polls =
    [Transcripts_Get ''t1'', log_Println [''Transcript polling status:'', ''processing''],
     time_Sleep 3000000000,
     Transcripts_Get ''t1'', log_Println [''Transcript polling status:'', ''processing''],
     time_Sleep 3000000000,
     Transcripts_Get ''t1'', log_Println [''Transcript polling status:'', ''completed'']]"
  have h1: "submits env [82, 73, 70, 70] ''/tmp/1.wav'' ''t1''"
    by (simp add: env_def demo_unfold)
  have h2: "waitUntilCompleted 3 (ret_Transcripts_Get env) ''t1'' 0 =
      (polls, Return (\<lparr>ID = Some ''t1'', Status = ''completed'', Error = None\<rparr>, None))"
    by (simp add: env_def polls_def demo_unfold numeral_3_eq_3)
  have h3: "ID \<lparr>ID = Some ''t1'', Status = ''completed'', Error = None\<rparr> = Some ''t1''"
    by simp
  have h4: "getUtterancesFromTranscript env (ret_Getenv env) ''t1'' =
      ([client_Do ''https://api.assemblyai.com/v2/transcript/t1'' ''key'', Body_Close],
       [\<lparr>Text = ''a'', Speaker = ''A'', Start = 2840, End = 5860\<rparr>,
        \<lparr>Text = ''b'', Speaker = ''B'', Start = 5860, End = 7840\<rparr>], None)"
    by (simp add: env_def demo_unfold)
  show ?thesis
    unfolding env_def [symmetric] stored_before_response [OF h1 h2 h3 h4]
    by (simp add: preamble_def polls_def env_def demo_env_def normalize_utterances_map clean_def)
qed

text \<open>
  C10. The key is read from the environment inside \<open>handleWS\<close>, and \<open>main\<close> does not
  read it. A session that finds it empty returns early: nothing stored, nothing written
  to the connection, no panic, and the sessions after it are handled as if it had never
  run. When the audio could be received and buffered, the frame has been read and
  written to the temporary file before the key is looked at.
\<close>

theorem missing_credential:
  assumes "ret_Getenv env = []" and "r = handleWS rounds env s"
  shows "outcome r = Return Aborted \<and> silent r s
    \<and> (buffers env data tmpfile \<longrightarrow>
         events r =
           [log_Println [''New connection:'', ret_uuid_New env], conn_ReadMessage,
            os_CreateTemp, tmpfile_Write data, tmpfile_Close, os_Open tmpfile,
            os_Getenv ''ASSEMBLYAI_API_KEY'',
            log_Println [''API key not found in environment''],
            audioFile_Close, os_Remove tmpfile, conn_Close])
    \<and> serve ((rounds, env) # sessions) s = serve sessions s
    \<and> os_Getenv ''ASSEMBLYAI_API_KEY'' \<notin> set main_calls"
proof -
  have a: "outcome r = Return Aborted"
    unfolding assms(2) by (rule handleWS_no_key_any [OF assms(1)])
  then have b: "silent r s"
    unfolding assms(2) using handleWS_silent [of rounds env s] by simp
  have c: "buffers env data tmpfile \<longrightarrow>
         events r =
           [log_Println [''New connection:'', ret_uuid_New env], conn_ReadMessage,
            os_CreateTemp, tmpfile_Write data, tmpfile_Close, os_Open tmpfile,
            os_Getenv ''ASSEMBLYAI_API_KEY'',
            log_Println [''API key not found in environment''],
            audioFile_Close, os_Remove tmpfile, conn_Close]"
    unfolding assms(2)
    using handleWS_no_key [of env data tmpfile rounds s] assms(1)
    by (simp add: preamble_def closing_def)
  from b have "serve ((rounds, env) # sessions) s = serve sessions s"
    unfolding assms(2) by (simp add: silent_def)
  moreover have "os_Getenv ''ASSEMBLYAI_API_KEY'' \<notin> set main_calls"
    by (simp add: main_calls_def)
  ultimately show ?thesis using a b c by blast
qed

theorem missing_credential_witness:
  "(let r = handleWS 3 (demo_env\<lparr>ret_Getenv := []\<rparr>) Map.empty
    in outcome r = Return Aborted \<and> silent r Map.empty
       \<and> events r =
           [log_Println [''New connection:'', ''c1''], conn_ReadMessage,
            os_CreateTemp, tmpfile_Write [82, 73, 70, 70], tmpfile_Close, os_Open ''/tmp/1.wav'',
            os_Getenv ''ASSEMBLYAI_API_KEY'',
            log_Println [''API key not found in environment''],
            audioFile_Close, os_Remove ''/tmp/1.wav'', conn_Close]
       \<and> serve [(3, demo_env\<lparr>ret_Getenv := []\<rparr>), (3, demo_env)] Map.empty =
           serve [(3, demo_env)] Map.empty)"
proof -
  define env where "env = demo_env\<lparr>ret_Getenv := []\<rparr>"
  have h1: "ret_Getenv env = []"
    by (simp add: env_def)
  have h2: "buffers env [82, 73, 70, 70] ''/tmp/1.wav''"
    by (simp add: env_def demo_unfold)
  show ?thesis
    unfolding Let_def env_def [symmetric]
    using missing_credential [OF h1 refl, of 3 Map.empty "[82, 73, 70, 70]" "''/tmp/1.wav''"
        "[(3, demo_env)]"] h2
    by (simp add: env_def demo_env_def)
qed

section \<open>Retrieval\<close>

lemma serve_absent:
  "s ident = None \<Longrightarrow> ident \<notin> set (map (ret_uuid_New \<circ> snd) sessions) \<Longrightarrow>
   serve sessions s ident = None"
proof (induction sessions arbitrary: s)
  case Nil
  then show ?case by simp
next
  case (Cons x sessions)
  obtain rounds env where x: "x = (rounds, env)" by (cases x)
  from Cons.prems have "transcriptions (handleWS rounds env s) ident = None"
    by (simp add: handleWS_transcriptions x)
  with Cons.IH [of "transcriptions (handleWS rounds env s)"] Cons.prems show ?case
    by (simp add: x)
qed

text \<open>
  C5. Retrieval answers 200 with the stored segments, in order, as a JSON array of
  objects with the keys \<open>text\<close>, \<open>start\<close> and \<open>end\<close> (an empty array for an empty
  record), and 404 with the text "Transcription not found" when the identifier has no
  record; an identifier that no session was given has none.
\<close>

theorem retrieval_spec:
  "(s ident = Some data \<longrightarrow>
      snd (handleGetTranscription ident s) =
        \<lparr>status = 200, content_type = ''application/json'',
         payload = JSON (JArray (map (\<lambda>c. JObject [(''text'', JString (CleanText c)),
                                                   (''start'', JNumber (CleanStart c)),
                                                   (''end'', JNumber (CleanEnd c))]) data))\<rparr>)
   \<and> (s ident = None \<longrightarrow>
      snd (handleGetTranscription ident s) =
        \<lparr>status = 404, content_type = ''text/plain; charset=utf-8'',
         payload = PlainText ''Transcription not found''\<rparr>)
   \<and> (ident \<notin> set (map (ret_uuid_New \<circ> snd) sessions) \<longrightarrow>
      snd (handleGetTranscription ident (serve sessions Map.empty)) =
        \<lparr>status = 404, content_type = ''text/plain; charset=utf-8'',
         payload = PlainText ''Transcription not found''\<rparr>)"
proof -
  have "ident \<notin> set (map (ret_uuid_New \<circ> snd) sessions) \<longrightarrow>
        serve sessions Map.empty ident = None"
    using serve_absent [of Map.empty ident sessions] by simp
  then show ?thesis
    by (auto simp: handleGetTranscription_def respond_def http_Error_def StatusOK_def
        StatusNotFound_def CleanUtterance_json_def)
qed

theorem retrieval_spec_witness:
  "snd (handleGetTranscription ''c1''
          [''c1'' \<mapsto> [\<lparr>CleanText = ''a'', CleanStart = 2.84, CleanEnd = 5.86\<rparr>]]) =
     \<lparr>status = 200, content_type = ''application/json'',
      payload = JSON (JArray [JObject [(''text'', JString ''a''), (''start'', JNumber 2.84),
                                       (''end'', JNumber 5.86)]])\<rparr>
   \<and> snd (handleGetTranscription ''c1'' [''c1'' \<mapsto> []]) =
     \<lparr>status = 200, content_type = ''application/json'', payload = JSON (JArray [])\<rparr>
   \<and> snd (handleGetTranscription ''c2'' [''c1'' \<mapsto> []]) =
     \<lparr>status = 404, content_type = ''text/plain; charset=utf-8'',
      payload = PlainText ''Transcription not found''\<rparr>
   \<and> snd (handleGetTranscription ''c2'' (serve [(3, demo_env)] Map.empty)) =
     \<lparr>status = 404, content_type = ''text/plain; charset=utf-8'',
      payload = PlainText ''Transcription not found''\<rparr>"
proof -
  note a = retrieval_spec [where ident = "''c1''"
      and s = "[''c1'' \<mapsto> [\<lparr>CleanText = ''a'', CleanStart = 2.84, CleanEnd = 5.86\<rparr>]]"
      and data = "[\<lparr>CleanText = ''a'', CleanStart = 2.84, CleanEnd = 5.86\<rparr>]", THEN conjunct1]
  note b = retrieval_spec [where ident = "''c1''" and s = "[''c1'' \<mapsto> []]" and data = "[]",
      THEN conjunct1]
  note c = retrieval_spec [where ident = "''c2''" and s = "[''c1'' \<mapsto> []]",
      THEN conjunct2, THEN conjunct1]
  note d = retrieval_spec [where ident = "''c2''" and sessions = "[(3, demo_env)]",
      THEN conjunct2, THEN conjunct2]
  have h: "''c2'' \<notin> set (map (ret_uuid_New \<circ> snd) [(3, demo_env)])"
    by (simp add: demo_env_def)
  from a b c d [rule_format, OF h] show ?thesis
    by simp
qed

lemma sorted_clean:
  "sorted (map Start us) \<Longrightarrow> sorted (map CleanStart (map clean us))"
  by (induction us) (auto simp: clean_def divide_right_mono)

text \<open>
  C6, as the code has it. When a session has completed, retrieval under its identifier
  answers 200 with one public segment per segment of the provider, in the provider's
  order: the sequence is empty exactly when the provider's is. If every raw segment has
  its start at or before its end, and the starts do not decrease, the same holds of the
  public segments.
\<close>

theorem retrieval_after_completion:
  assumes "r = handleWS rounds env s"
    and "outcome r = Return Completed"
    and "utterances = fst (ret_Unmarshal env)"
    and "\<forall>u \<in> set utterances. Start u \<le> End u"
    and "sorted (map Start utterances)"
  shows "snd (handleGetTranscription (ret_uuid_New env) (transcriptions r)) =
        \<lparr>status = 200, content_type = ''application/json'',
         payload = JSON (JArray (map CleanUtterance_json (normalize_utterances utterances)))\<rparr>
      \<and> length (normalize_utterances utterances) = length utterances
      \<and> (\<forall>c \<in> set (normalize_utterances utterances). CleanStart c \<le> CleanEnd c)
      \<and> sorted (map CleanStart (normalize_utterances utterances))"
proof -
  have t: "transcriptions r (ret_uuid_New env) = Some (normalize_utterances utterances)"
    using assms(2) unfolding assms(1) assms(3) by (simp add: handleWS_transcriptions)
  have s: "sorted (map CleanStart (normalize_utterances utterances))"
    unfolding normalize_utterances_map using assms(5) by (rule sorted_clean)
  have b: "\<forall>c \<in> set (normalize_utterances utterances). CleanStart c \<le> CleanEnd c"
    using assms(4) by (auto simp: normalize_utterances_map clean_def divide_right_mono)
  show ?thesis
    using t s b
    by (simp add: handleGetTranscription_def respond_def StatusOK_def normalize_utterances_map)
qed

theorem retrieval_after_completion_witness:
  "length (normalize_utterances (fst (ret_Unmarshal demo_env))) = 2
   \<and> snd (handleGetTranscription ''c1'' (transcriptions (handleWS 3 demo_env Map.empty))) =
     \<lparr>status = 200, content_type = ''application/json'',
      payload = JSON (JArray
        [JObject [(''text'', JString ''a''), (''start'', JNumber 2.84), (''end'', JNumber 5.86)],
         JObject [(''text'', JString ''b''), (''start'', JNumber 5.86), (''end'', JNumber 7.84)]])\<rparr>"
proof -
  have c: "handleWS 3 demo_env Map.empty =
      \<lparr>transcriptions = [''c1'' \<mapsto> normalize_utterances (fst (ret_Unmarshal demo_env))],
       events = events (handleWS 3 demo_env Map.empty), outcome = Return Completed\<rparr>"
    by (rule session_result_eqI)
       (simp_all add: handleWS_def Let_def demo_unfold numeral_3_eq_3)
  have h2: "outcome (handleWS 3 demo_env Map.empty) = Return Completed"
    by (subst c) simp
  have h4: "\<forall>u \<in> set (fst (ret_Unmarshal demo_env)). Start u \<le> End u"
    by (simp add: demo_env_def)
  have h5: "sorted (map Start (fst (ret_Unmarshal demo_env)))"
    by (simp add: demo_env_def)
  from retrieval_after_completion [OF refl h2 refl h4 h5]
  show ?thesis
    by (simp add: demo_env_def normalize_utterances_map clean_def CleanUtterance_json_def)
qed

text \<open>
  C6 as stated asks for a non-empty sequence. A provider that answers with no
  utterances meets the conditions on the raw segments; the session completes and
  retrieval answers 200 with the empty array.
\<close>

theorem empty_transcript_is_served:
  "outcome (handleWS 3 (demo_env\<lparr>ret_Unmarshal := ([], None)\<rparr>) Map.empty) = Return Completed
   \<and> snd (handleGetTranscription ''c1''
            (transcriptions (handleWS 3 (demo_env\<lparr>ret_Unmarshal := ([], None)\<rparr>) Map.empty))) =
       \<lparr>status = 200, content_type = ''application/json'', payload = JSON (JArray [])\<rparr>"
proof -
  define env where "env = demo_env\<lparr>ret_Unmarshal := ([], None)\<rparr>"
  have c: "handleWS 3 env Map.empty =
      \<lparr>transcriptions = [''c1'' \<mapsto> []],
       events = events (handleWS 3 env Map.empty), outcome = Return Completed\<rparr>"
    by (rule session_result_eqI)
       (simp_all add: handleWS_def Let_def env_def demo_unfold numeral_3_eq_3
          normalize_utterances_def)
  show ?thesis
    unfolding env_def [symmetric]
    by (subst c, subst c)
       (simp add: handleGetTranscription_def respond_def StatusOK_def)
qed

section \<open>Concurrent tasks\<close>

subsection \<open>Programs of the tasks\<close>

lemma handleWS_submit_nil_id:
  "buffers env data tmpfile \<Longrightarrow> ret_Getenv env \<noteq> [] \<Longrightarrow>
   ret_TranscribeFromReader env = (transcript, None) \<Longrightarrow> ID transcript = None \<Longrightarrow>
   outcome (handleWS rounds env s) = Panic nil_dereference"
  by (simp add: handleWS_def Let_def buffers_def receives_def)

lemma handleWS_no_upgrade:
  "ret_Upgrade env = Some err \<Longrightarrow> outcome (handleWS rounds env s) = Return Aborted"
  by (simp add: handleWS_def)

text \<open>A session that completes has passed every check on its way.\<close>

lemma completedD:
  assumes c: "outcome (handleWS rounds env s) = Return Completed"
  obtains data tmpfile tid polls tr cid fetch utterances where
    "submits env data tmpfile tid"
    "waitUntilCompleted rounds (ret_Transcripts_Get env) tid 0 = (polls, Return (tr, None))"
    "ID tr = Some cid"
    "getUtterancesFromTranscript env (ret_Getenv env) cid = (fetch, utterances, None)"
proof -
  have up: "ret_Upgrade env = None"
    using c handleWS_no_upgrade [of env _ rounds s] by (cases "ret_Upgrade env") auto
  obtain mt data err where rm: "ret_ReadMessage env = (mt, data, err)"
    by (cases "ret_ReadMessage env")
  have "\<not> (err \<noteq> None \<or> mt \<noteq> BinaryMessage)"
  proof
    assume a: "err \<noteq> None \<or> mt \<noteq> BinaryMessage"
    from handleWS_no_frame [OF up rm a, of rounds s] c show False by simp
  qed
  with up rm have rc: "receives env data"
    by (simp add: receives_def)
  obtain tmpfile terr where ct: "ret_CreateTemp env = (tmpfile, terr)"
    by (cases "ret_CreateTemp env")
  have "\<not> (snd (ret_CreateTemp env) \<noteq> None \<or> ret_Write env \<noteq> None \<or> ret_Open env \<noteq> None)"
  proof
    assume a: "snd (ret_CreateTemp env) \<noteq> None \<or> ret_Write env \<noteq> None \<or> ret_Open env \<noteq> None"
    from handleWS_no_buffer [OF rc a, of rounds s] c show False by simp
  qed
  with rc ct have bf: "buffers env data tmpfile"
    by (simp add: buffers_def)
  have key: "ret_Getenv env \<noteq> []"
    using c handleWS_no_key_any [of env rounds s] by auto
  obtain transcript serr where tr: "ret_TranscribeFromReader env = (transcript, serr)"
    by (cases "ret_TranscribeFromReader env")
  have serr: "serr = None"
    using c handleWS_not_submitted [OF bf key, of rounds s] tr by (cases serr) auto
  obtain tid where tid: "ID transcript = Some tid"
    using c handleWS_submit_nil_id [OF bf key, of transcript rounds s] tr serr
    by (cases "ID transcript") auto
  from bf key tr serr tid have sb: "submits env data tmpfile tid"
    by (simp add: submits_def)
  obtain polls x where w: "waitUntilCompleted rounds (ret_Transcripts_Get env) tid 0 = (polls, x)"
    by (cases "waitUntilCompleted rounds (ret_Transcripts_Get env) tid 0")
  have "\<exists>t. x = Return (t, None)"
  proof (cases x)
    case (Return p)
    obtain t e where p: "p = (t, e)" by (cases p)
    show ?thesis
      using c handleWS_poll_failed [OF sb, of rounds polls t _ s] w Return p
      by (cases e) auto
  next
    case (Panic m)
    with c handleWS_poll_panic [OF sb, of rounds polls m s] w show ?thesis by auto
  next
    case Running
    with c handleWS_running [OF sb, of rounds polls s] w show ?thesis by auto
  qed
  then obtain t where x: "x = Return (t, None)" ..
  note w' = w [unfolded x]
  obtain cid where cid: "ID t = Some cid"
    using c handleWS_nil_id [OF sb w', of s] by (cases "ID t") auto
  obtain fetch utterances ferr where
    f: "getUtterancesFromTranscript env (ret_Getenv env) cid = (fetch, utterances, ferr)"
    by (cases "getUtterancesFromTranscript env (ret_Getenv env) cid")
  have "ferr = None"
    using c handleWS_fetch_failed [OF sb w' cid, of fetch utterances _ s] f
    by (cases ferr) auto
  with sb w' cid f show ?thesis
    by (auto intro: that)
qed

lemma guarded_skip:
  "filter is_sync xs = [] \<Longrightarrow> guarded False (xs @ ys) = guarded False ys"
proof (induction xs)
  case Nil
  then show ?case by simp
next
  case (Cons e xs)
  then show ?case by (cases e) (simp_all split: if_splits)
qed

lemma no_poll_skip:
  "filter is_store xs = [] \<Longrightarrow> no_poll_after_store (xs @ ys) = no_poll_after_store ys"
  by (induction xs) (simp_all split: if_splits)

lemma no_poll_after_storeD:
  "no_poll_after_store (d @ r) \<Longrightarrow> filter is_store d \<noteq> [] \<Longrightarrow> filter is_poll r = []"
proof (induction d)
  case Nil
  then show ?case by simp
next
  case (Cons e d)
  then show ?case by (cases "is_store e") simp_all
qed

lemma handleWS_shape:
  "guarded False (events (handleWS rounds env s))
   \<and> no_poll_after_store (events (handleWS rounds env s))"
proof (cases "outcome (handleWS rounds env s) = Return Completed")
  case True
  then obtain data tmpfile tid polls tr cid fetch utterances where h:
    "submits env data tmpfile tid"
    "waitUntilCompleted rounds (ret_Transcripts_Get env) tid 0 = (polls, Return (tr, None))"
    "ID tr = Some cid"
    "getUtterancesFromTranscript env (ret_Getenv env) cid = (fetch, utterances, None)"
    by (rule completedD)
  define before where
    "before = preamble env data tmpfile @ [TranscribeFromReader (ret_Getenv env) data] @ polls
              @ fetch"
  define after where
    "after = [mu_Lock, map_store (ret_uuid_New env) (normalize_utterances utterances),
              mu_Unlock,
              conn_WriteJSON [(''connection_id'', ret_uuid_New env)] (ret_WriteJSON env)]
             @ closing tmpfile"
  have ev: "events (handleWS rounds env s) = before @ after"
    by (simp add: handleWS_completed [OF h] before_def after_def)
  have p: "filter is_sync polls = []" "filter is_store polls = []"
    using poll_quiet_aux [OF h(2)] by simp_all
  have f: "filter is_sync fetch = []" "filter is_store fetch = []"
    using fetch_quiet(3) [of env "ret_Getenv env" cid]
      fetch_quiet(2) [of env "ret_Getenv env" cid] h(4) by simp_all
  have b: "filter is_sync before = []" "filter is_store before = []"
    using p f by (simp_all add: before_def preamble_def)
  have "guarded False after" "no_poll_after_store after"
    by (simp_all add: after_def closing_def)
  with b show ?thesis
    unfolding ev by (simp add: guarded_skip no_poll_skip)
next
  case False
  then have "filter is_sync (events (handleWS rounds env s)) = []"
    "filter is_store (events (handleWS rounds env s)) = []"
    by (simp_all add: handleWS_sync handleWS_stores)
  then show ?thesis
    using guarded_skip [of "events (handleWS rounds env s)" "[]"]
      no_poll_skip [of "events (handleWS rounds env s)" "[]"]
    by simp
qed

lemma program_guarded: "guarded False (program task)"
  by (cases task) (simp_all add: handleWS_shape handleGetTranscription_def)

lemma program_no_poll_after_store: "no_poll_after_store (program task)"
  by (cases task) (simp_all add: handleWS_shape handleGetTranscription_def)

lemma program_store:
  assumes "map_store k v \<in> set (program task)"
  obtains rounds env where "task = Session rounds env" "k = ret_uuid_New env"
    "v = normalize_utterances (fst (ret_Unmarshal env))"
    "\<And>s. outcome (handleWS rounds env s) = Return Completed"
proof (cases task)
  case (Session rounds env)
  from assms have "map_store k v \<in> set (filter is_store (events (handleWS rounds env Map.empty)))"
    by (simp add: Session)
  then have "outcome (handleWS rounds env Map.empty) = Return Completed
      \<and> k = ret_uuid_New env \<and> v = normalize_utterances (fst (ret_Unmarshal env))"
    unfolding handleWS_stores by (simp split: if_splits)
  moreover have "\<And>s. outcome (handleWS rounds env s) = outcome (handleWS rounds env Map.empty)"
    by (rule handleWS_events_any_store)
  ultimately show ?thesis
    using Session by (auto intro: that)
next
  case (Retrieval ident)
  with assms show ?thesis
    by (simp add: handleGetTranscription_def)
qed

subsection \<open>Runs of the server\<close>

lemma perform_history: "perform t e \<sigma> = Some \<sigma>' \<Longrightarrow> history \<sigma>' = history \<sigma> @ [(t, e)]"
  by (cases e) (auto simp: perform_def split: if_splits)

lemma perform_store:
  "perform t (map_store k v) \<sigma> = Some \<sigma>' \<Longrightarrow> shared \<sigma>' = (shared \<sigma>)(k \<mapsto> v)"
  by (auto simp: perform_def)

lemma perform_other: "perform t e \<sigma> = Some \<sigma>' \<Longrightarrow> \<not> is_store e \<Longrightarrow> shared \<sigma>' = shared \<sigma>"
  by (cases e) (auto simp: perform_def split: if_splits)

lemma perform_holder:
  "perform t e \<sigma> = Some \<sigma>' \<Longrightarrow>
   holder \<sigma>' = (if e = mu_Lock then Some t else if e = mu_Unlock then None else holder \<sigma>)"
  by (cases e) (auto simp: perform_def split: if_splits)

lemma perform_Lock: "perform t mu_Lock \<sigma> = Some \<sigma>' \<Longrightarrow> holder \<sigma> = None"
  by (auto simp: perform_def split: if_splits)

lemma perform_Unlock: "perform t mu_Unlock \<sigma> = Some \<sigma>' \<Longrightarrow> holder \<sigma> = Some t"
  by (auto simp: perform_def split: if_splits)

lemma performed_step:
  "perform t e \<sigma> = Some \<sigma>' \<Longrightarrow>
   performed \<sigma>' u = performed \<sigma> u @ (if u = t then [e] else [])"
  by (simp add: performed_def perform_history)

lemma critical_from_append:
  "critical_from h (xs @ ys) = critical_from (critical_from h xs) ys"
  by (induction xs arbitrary: h) simp_all

lemma critical_snoc:
  "critical (xs @ [e]) =
     (if e = mu_Lock then True else if e = mu_Unlock then False else critical xs)"
  by (simp add: critical_def critical_from_append)

text \<open>An invariant kept by every call holds after every run.\<close>

lemma run_invariant:
  assumes "run sched progs \<sigma> = Some (rest, \<sigma>')"
    and "P progs \<sigma>"
    and step: "\<And>t e es progs \<sigma> \<sigma>1. P progs \<sigma> \<Longrightarrow> t < length progs \<Longrightarrow> progs ! t = e # es \<Longrightarrow>
           perform t e \<sigma> = Some \<sigma>1 \<Longrightarrow> P (progs[t := es]) \<sigma>1"
  shows "P rest \<sigma>'"
  using assms(1,2)
proof (induction sched arbitrary: progs \<sigma>)
  case Nil
  then show ?case by simp
next
  case (Cons t sched)
  from Cons.prems(1) have t: "t < length progs"
    by (simp split: if_splits)
  from Cons.prems(1) t obtain e es where p: "progs ! t = e # es"
    by (cases "progs ! t") simp_all
  from Cons.prems(1) t p obtain \<sigma>1 where q: "perform t e \<sigma> = Some \<sigma>1"
    by (cases "perform t e \<sigma>") simp_all
  from Cons.prems(1) t p q have r: "run sched (progs[t := es]) \<sigma>1 = Some (rest, \<sigma>')"
    by simp
  from step [OF Cons.prems(2) t p q] have "P (progs[t := es]) \<sigma>1" .
  with r show ?case by (rule Cons.IH)
qed

subsection \<open>The mutex\<close>

lemma mutex_step:
  assumes "\<forall>u. critical (performed \<sigma> u) \<longleftrightarrow> holder \<sigma> = Some u"
    and "perform t e \<sigma> = Some \<sigma>1"
  shows "\<forall>u. critical (performed \<sigma>1 u) \<longleftrightarrow> holder \<sigma>1 = Some u"
proof
  fix u
  show "critical (performed \<sigma>1 u) \<longleftrightarrow> holder \<sigma>1 = Some u"
  proof (cases "e = mu_Lock")
    case True
    with assms(2) have "holder \<sigma> = None" by (simp add: perform_Lock)
    with assms(1) have "\<not> critical (performed \<sigma> u)" by simp
    with True assms(2) show ?thesis
      by (auto simp: performed_step [OF assms(2)] perform_holder [OF assms(2)] critical_snoc)
  next
    case False
    show ?thesis
    proof (cases "e = mu_Unlock")
      case True
      with assms(2) have "holder \<sigma> = Some t" by (simp add: perform_Unlock)
      with assms(1) have "u \<noteq> t \<Longrightarrow> \<not> critical (performed \<sigma> u)" by simp
      with True show ?thesis
        by (auto simp: performed_step [OF assms(2)] perform_holder [OF assms(2)] critical_snoc)
    next
      case False
      with \<open>e \<noteq> mu_Lock\<close> assms(1) show ?thesis
        by (simp add: performed_step [OF assms(2)] perform_holder [OF assms(2)] critical_snoc)
    qed
  qed
qed

lemma run_mutex:
  assumes "run sched progs initial = Some (rest, \<sigma>)"
  shows "critical (performed \<sigma> u) \<longleftrightarrow> holder \<sigma> = Some u"
proof -
  have "\<forall>u. critical (performed \<sigma> u) \<longleftrightarrow> holder \<sigma> = Some u"
    using assms
  proof (rule run_invariant [where P = "\<lambda>progs \<sigma>. \<forall>u. critical (performed \<sigma> u) \<longleftrightarrow> holder \<sigma> = Some u"])
    show "\<forall>u. critical (performed initial u) \<longleftrightarrow> holder initial = Some u"
      by (simp add: initial_def performed_def critical_def)
  qed (rule mutex_step)
  then show ?thesis ..
qed

subsection \<open>Programs and history\<close>

lemma traced_step:
  assumes "length progs = n \<and> (\<forall>u<n. progs0 ! u = performed \<sigma> u @ progs ! u)
           \<and> (\<forall>x \<in> set (history \<sigma>). fst x < n)"
    and "t < length progs" and "progs ! t = e # es" and "perform t e \<sigma> = Some \<sigma>1"
  shows "length (progs[t := es]) = n \<and> (\<forall>u<n. progs0 ! u = performed \<sigma>1 u @ progs[t := es] ! u)
           \<and> (\<forall>x \<in> set (history \<sigma>1). fst x < n)"
  using assms
  by (auto simp: performed_step [OF assms(4)] perform_history [OF assms(4)] nth_list_update)

lemma run_traced:
  assumes "run sched progs initial = Some (rest, \<sigma>)"
  shows "length rest = length progs \<and> (\<forall>u<length progs. progs ! u = performed \<sigma> u @ rest ! u)
           \<and> (\<forall>x \<in> set (history \<sigma>). fst x < length progs)"
  using assms
proof (rule run_invariant [where P = "\<lambda>ps \<sigma>. length ps = length progs
           \<and> (\<forall>u<length progs. progs ! u = performed \<sigma> u @ ps ! u)
           \<and> (\<forall>x \<in> set (history \<sigma>). fst x < length progs)"])
  show "length progs = length progs \<and> (\<forall>u<length progs. progs ! u = performed initial u @ progs ! u)
           \<and> (\<forall>x \<in> set (history initial). fst x < length progs)"
    by (simp add: initial_def performed_def)
qed (rule traced_step)

subsection \<open>The content of the map\<close>

lemma stores_step:
  assumes "(\<forall>k v. shared \<sigma> k = Some v \<longrightarrow> (\<exists>u. (u, map_store k v) \<in> set (history \<sigma>)))
           \<and> (\<forall>u k v. (u, map_store k v) \<in> set (history \<sigma>) \<longrightarrow> shared \<sigma> k \<noteq> None)"
    and "perform t e \<sigma> = Some \<sigma>1"
  shows "(\<forall>k v. shared \<sigma>1 k = Some v \<longrightarrow> (\<exists>u. (u, map_store k v) \<in> set (history \<sigma>1)))
           \<and> (\<forall>u k v. (u, map_store k v) \<in> set (history \<sigma>1) \<longrightarrow> shared \<sigma>1 k \<noteq> None)"
proof (cases "is_store e")
  case True
  then obtain k0 v0 where e: "e = map_store k0 v0" by (cases e) simp_all
  from assms(2) have s: "shared \<sigma>1 = (shared \<sigma>)(k0 \<mapsto> v0)"
    unfolding e by (rule perform_store)
  from assms(1) show ?thesis
    unfolding perform_history [OF assms(2)] s e by (auto split: if_splits)
next
  case False
  then have n: "\<And>k v. e \<noteq> map_store k v" "\<And>k v. map_store k v \<noteq> e" by auto
  from assms(1) show ?thesis
    unfolding perform_history [OF assms(2)] perform_other [OF assms(2) False]
    by (simp add: n)
qed

lemma run_stores:
  assumes "run sched progs initial = Some (rest, \<sigma>)"
  shows "(\<forall>k v. shared \<sigma> k = Some v \<longrightarrow> (\<exists>u. (u, map_store k v) \<in> set (history \<sigma>)))
           \<and> (\<forall>u k v. (u, map_store k v) \<in> set (history \<sigma>) \<longrightarrow> shared \<sigma> k \<noteq> None)"
  using assms
proof (rule run_invariant [where P = "\<lambda>ps \<sigma>.
        (\<forall>k v. shared \<sigma> k = Some v \<longrightarrow> (\<exists>u. (u, map_store k v) \<in> set (history \<sigma>)))
           \<and> (\<forall>u k v. (u, map_store k v) \<in> set (history \<sigma>) \<longrightarrow> shared \<sigma> k \<noteq> None)"])
  show "(\<forall>k v. shared initial k = Some v \<longrightarrow> (\<exists>u. (u, map_store k v) \<in> set (history initial)))
           \<and> (\<forall>u k v. (u, map_store k v) \<in> set (history initial) \<longrightarrow> shared initial k \<noteq> None)"
    by (simp add: initial_def)
qed (rule stores_step)

lemma distinct_map_filter_nth:
  "distinct (List.map_filter f xs) \<Longrightarrow> i < length xs \<Longrightarrow> j < length xs \<Longrightarrow>
   f (xs ! i) = Some a \<Longrightarrow> f (xs ! j) = Some a \<Longrightarrow> i = j"
proof (induction xs arbitrary: i j)
  case Nil
  then show ?case by simp
next
  case (Cons x xs)
  have mem: "\<And>n. n < length xs \<Longrightarrow> f (xs ! n) = Some a \<Longrightarrow> a \<in> set (List.map_filter f xs)"
    by (force simp: map_filter_def)
  show ?case
  proof (cases i)
    case 0
    show ?thesis
    proof (cases j)
      case 0
      with \<open>i = 0\<close> show ?thesis by simp
    next
      case (Suc j')
      with Cons.prems 0 mem [of j'] show ?thesis
        by auto
    qed
  next
    case (Suc i')
    show ?thesis
    proof (cases j)
      case 0
      with Cons.prems Suc mem [of i'] show ?thesis
        by auto
    next
      case (Suc j')
      with Cons.prems \<open>i = Suc i'\<close> Cons.IH [of i' j'] show ?thesis
        by (cases "f x") auto
    qed
  qed
qed

subsection \<open>Visibility and mutual exclusion\<close>

lemma performed_mem: "e \<in> set (performed \<sigma> u) \<longleftrightarrow> (u, e) \<in> set (history \<sigma>)"
  by (force simp: performed_def)

lemma has_stored_iff:
  "has_stored \<sigma> u \<longleftrightarrow> (\<exists>k v. (u, map_store k v) \<in> set (history \<sigma>))"
proof
  assume "has_stored \<sigma> u"
  then obtain e where e: "e \<in> set (performed \<sigma> u)" "is_store e"
    by (auto simp: has_stored_def filter_empty_conv)
  from e(2) obtain k v where "e = map_store k v" by (cases e) simp_all
  with e(1) show "\<exists>k v. (u, map_store k v) \<in> set (history \<sigma>)"
    by (auto simp: performed_mem)
next
  assume "\<exists>k v. (u, map_store k v) \<in> set (history \<sigma>)"
  then obtain k v where "map_store k v \<in> set (performed \<sigma> u)"
    by (auto simp: performed_mem)
  then show "has_stored \<sigma> u"
    by (auto simp: has_stored_def filter_empty_conv intro!: bexI [of _ "map_store k v"])
qed

text \<open>What a run of tasks with distinct identifiers knows of each \<open>map_store\<close> made.\<close>

lemma run_store_origin:
  assumes r: "run sched (map program tasks) initial = Some (rest, \<sigma>)"
    and h: "(u, map_store k v) \<in> set (history \<sigma>)"
  obtains rounds env where "u < length tasks" "tasks ! u = Session rounds env"
    "k = ret_uuid_New env" "v = normalize_utterances (fst (ret_Unmarshal env))"
    "\<And>s. outcome (handleWS rounds env s) = Return Completed"
proof -
  note tr = run_traced [OF r]
  from tr h have u: "u < length tasks" by force
  with tr have "program (tasks ! u) = performed \<sigma> u @ rest ! u" by simp
  moreover from h have "map_store k v \<in> set (performed \<sigma> u)"
    by (simp add: performed_mem)
  ultimately have "map_store k v \<in> set (program (tasks ! u))" by simp
  then show ?thesis
    by (rule program_store) (rule that [OF u])
qed

lemma run_lookup:
  assumes "q < length rest" and "rest ! q = program (Retrieval ident)" and "holder \<sigma> = None"
  shows "\<exists>rest' \<sigma>'. run [q, q, q] rest \<sigma> = Some (rest', \<sigma>')
           \<and> answer \<sigma>' q = Some (respond (shared \<sigma> ident))"
  using assms
  by (simp add: handleGetTranscription_def perform_def answer_def)



lemma demo_program:
  "program (Session 3 demo_env) =
     [log_Println [''New connection:'', ''c1''], conn_ReadMessage, os_CreateTemp,
      tmpfile_Write [82, 73, 70, 70], tmpfile_Close, os_Open ''/tmp/1.wav'',
      os_Getenv ''ASSEMBLYAI_API_KEY'', TranscribeFromReader ''key'' [82, 73, 70, 70],
      Transcripts_Get ''t1'', log_Println [''Transcript polling status:'', ''processing''],
      time_Sleep 3000000000,
      Transcripts_Get ''t1'', log_Println [''Transcript polling status:'', ''processing''],
      time_Sleep 3000000000,
      Transcripts_Get ''t1'', log_Println [''Transcript polling status:'', ''completed''],
      client_Do ''https://api.assemblyai.com/v2/transcript/t1'' ''key'', Body_Close,
      mu_Lock,
      map_store ''c1'' [\<lparr>CleanText = ''a'', CleanStart = 2.84, CleanEnd = 5.86\<rparr>,
                        \<lparr>CleanText = ''b'', CleanStart = 5.86, CleanEnd = 7.84\<rparr>],
      mu_Unlock, conn_WriteJSON [(''connection_id'', ''c1'')] None,
      audioFile_Close, os_Remove ''/tmp/1.wav'', conn_Close]"
proof -
  define polls where "polls =
    [Transcripts_Get ''t1'', log_Println [''Transcript polling status:'', ''processing''],
     time_Sleep 3000000000,
     Transcripts_Get ''t1'', log_Println [''Transcript polling status:'', ''processing''],
     time_Sleep 3000000000,
     Transcripts_Get ''t1'', log_Println [''Transcript polling status:'', ''completed'']]"
  have h1: "submits demo_env [82, 73, 70, 70] ''/tmp/1.wav'' ''t1''"
    by (simp add: demo_unfold)
  have h2: "waitUntilCompleted 3 (ret_Transcripts_Get demo_env) ''t1'' 0 =
      (polls, Return (\<lparr>ID = Some ''t1'', Status = ''completed'', Error = None\<rparr>, None))"
    by (simp add: polls_def demo_unfold numeral_3_eq_3)
  have h3: "ID \<lparr>ID = Some ''t1'', Status = ''completed'', Error = None\<rparr> = Some ''t1''"
    by simp
  have h4: "getUtterancesFromTranscript demo_env (ret_Getenv demo_env) ''t1'' =
      ([client_Do ''https://api.assemblyai.com/v2/transcript/t1'' ''key'', Body_Close],
       [\<lparr>Text = ''a'', Speaker = ''A'', Start = 2840, End = 5860\<rparr>,
        \<lparr>Text = ''b'', Speaker = ''B'', Start = 5860, End = 7840\<rparr>], None)"
    by (simp add: demo_unfold)
  show ?thesis
    unfolding program.simps handleWS_completed [OF h1 h2 h3 h4]
    by (simp add: preamble_def closing_def polls_def demo_env_def normalize_utterances_map
        clean_def)
qed

lemmas run_unfold =
  demo_tasks_def demo_program program.simps(2) handleGetTranscription_def perform_def
  initial_def

lemma demo_polling:
  "\<exists>rest \<sigma>. run [0, 0, 0, 0, 0, 0, 0, 0, 0] (map program demo_tasks) initial = Some (rest, \<sigma>)
     \<and> filter is_poll (rest ! 0) \<noteq> [] \<and> rest ! 1 = program (Retrieval ''c1'')
     \<and> holder \<sigma> = None"
  by (simp del: program.simps add: run_unfold)

lemma demo_stored:
  "\<exists>rest \<sigma>. run [0, 0, 0, 0, 0, 0, 0, 0, 0, 0, 0, 0, 0, 0, 0, 0, 0, 0, 0, 0, 0]
         (map program demo_tasks) initial = Some (rest, \<sigma>)
     \<and> has_stored \<sigma> 0"
  by (simp del: program.simps add: run_unfold has_stored_def performed_def)


lemma demo_distinct: "distinct (List.map_filter session_id demo_tasks)"
  by (simp add: demo_tasks_def map_filter_simps)





end
